theory Spec2Isabelle
  imports Main "HOL-Library.Word"
begin

unbundle bit_operations_syntax

section \<open>The allocator of mm.c as a state transformer\<close>

text \<open>
  The embedding follows \<^verbatim>\<open>src/mm.c\<close> function by function on an LP64 machine:
  pointers and \<^verbatim>\<open>size_t\<close> are 64-bit words (addition and subtraction wrap, comparisons
  are unsigned), and the heap is an array of 4-byte words \<^verbatim>\<open>word_t = int32_t\<close>,
  addressed by the byte address of each word. \<^verbatim>\<open>NULL\<close> is the address 0.
  The global variables of the file are the fields of the record \<open>state\<close> (\<open>last_blk\<close> is
  the variable \<^verbatim>\<open>last\<close>), together with the break and the limit of the sbrk provider.

  The array \<^verbatim>\<open>segregated_list\<close> of nine bucket heads is kept as a field of its own
  (in the C program it occupies the first 72 bytes obtained from the sbrk provider, below
  every block, and no block operation writes there).

  There are no access faults: where the C program would read or write through \<^verbatim>\<open>NULL\<close>
  (and crash), the model reads or writes the word at address 0. The loops that may not end,
  the walk along a free list and the walk along the heap, are partial functions with values
  in \<open>option\<close>, \<open>None\<close> standing for a call that does not return; the public
  operations that search a free list inherit it.
\<close>

type_synonym ptr = "64 word"
type_synonym size_t = "64 word"
type_synonym word_t = "32 word"

record state =
  mem :: "ptr \<Rightarrow> word_t"
  heap_start :: ptr
  heap_end :: ptr
  last_blk :: ptr
  segregated_list :: "ptr list"
  free_list_start :: ptr
  last_free :: ptr
  mem_brk :: ptr
  mem_max_addr :: ptr

definition NULL :: ptr where
  "NULL = 0"

definition WSIZE :: size_t where
  "WSIZE = 4"

text \<open>Modelled from the spec: the constant \<^verbatim>\<open>ALIGNMENT\<close> of mm.h, which is not
  part of the sources (``a process-wide value ALIGNMENT = 16 bytes'').\<close>

definition ALIGNMENT :: size_t where
  "ALIGNMENT = 16"

definition NUM_LIST :: nat where
  "NUM_LIST = 9"

text \<open>The enumeration \<^verbatim>\<open>bt_flags\<close>.\<close>

definition FREE :: word_t where
  "FREE = 0"

definition USED :: word_t where
  "USED = 1"

definition PREVFREE :: word_t where
  "PREVFREE = 2"

definition PACK :: "size_t \<Rightarrow> size_t \<Rightarrow> size_t" where
  "PACK sz alloc = sz OR alloc"

text \<open>\<^verbatim>\<open>PUT(p, val)\<close> stores the low 32 bits of \<open>val\<close>.\<close>

definition PUT :: "state \<Rightarrow> ptr \<Rightarrow> size_t \<Rightarrow> state" where
  "PUT s p val = s\<lparr>mem := (mem s)(p := ucast val)\<rparr>"

subsection \<open>The sbrk provider\<close>

text \<open>Modelled from the spec: the sbrk provider \<^verbatim>\<open>mem_sbrk\<close> of memlib, which is not
  part of the sources: ``a monotonic heap extender exposing grow(n) \<rightarrow> base | fail''.
  It hands out the bytes between the current break and a fixed upper limit; a request that does
  not fit fails (the C function returns \<^verbatim>\<open>(void *)-1\<close>) and changes nothing.\<close>

definition mem_sbrk :: "state \<Rightarrow> size_t \<Rightarrow> (ptr \<times> state) option" where
  "mem_sbrk s incr =
     (if unat (mem_brk s) + unat incr \<le> unat (mem_max_addr s)
      then Some (mem_brk s, s\<lparr>mem_brk := mem_brk s + incr\<rparr>)
      else None)"

subsection \<open>Boundary tags\<close>

text \<open>\<^verbatim>\<open>*bt & ~(USED | PREVFREE)\<close> is an \<^verbatim>\<open>int\<close>; returning it as
  \<^verbatim>\<open>size_t\<close> sign-extends.\<close>

definition bt_size :: "state \<Rightarrow> ptr \<Rightarrow> size_t" where
  "bt_size s bt = scast (mem s bt AND NOT (USED OR PREVFREE))"

definition bt_used :: "state \<Rightarrow> ptr \<Rightarrow> word_t" where
  "bt_used s bt = mem s bt AND USED"

definition bt_free :: "state \<Rightarrow> ptr \<Rightarrow> bool" where
  "bt_free s bt = (mem s bt AND USED = 0)"

definition bt_get_prevfree :: "state \<Rightarrow> ptr \<Rightarrow> word_t" where
  "bt_get_prevfree s bt = mem s bt AND PREVFREE"

definition bt_clr_prevfree :: "state \<Rightarrow> ptr \<Rightarrow> state" where
  "bt_clr_prevfree s bt =
     (if bt \<noteq> NULL then s\<lparr>mem := (mem s)(bt := mem s bt AND NOT PREVFREE)\<rparr> else s)"

definition bt_set_prevfree :: "state \<Rightarrow> ptr \<Rightarrow> state" where
  "bt_set_prevfree s bt = s\<lparr>mem := (mem s)(bt := mem s bt OR PREVFREE)\<rparr>"

definition bt_footer :: "state \<Rightarrow> ptr \<Rightarrow> ptr" where
  "bt_footer s bt = bt + bt_size s bt - 4"

definition bt_header :: "ptr \<Rightarrow> ptr" where
  "bt_header p = p - 4"

definition bt_payload :: "ptr \<Rightarrow> ptr" where
  "bt_payload bt = bt + 4"

definition bt_next :: "state \<Rightarrow> ptr \<Rightarrow> ptr" where
  "bt_next s block_ptr =
     (let next = block_ptr + bt_size s block_ptr
      in if next \<le> heap_end s then next else NULL)"

definition bt_prev :: "state \<Rightarrow> ptr \<Rightarrow> ptr" where
  "bt_prev s block_ptr =
     (let prev = block_ptr - bt_size s (block_ptr - 4)
      in if prev \<ge> heap_start s then prev else NULL)"

definition bt_make :: "state \<Rightarrow> ptr \<Rightarrow> size_t \<Rightarrow> word_t \<Rightarrow> state" where
  "bt_make s bt sz flags =
     (let s1 = PUT s bt (PACK sz (ucast flags))
      in if bt_used s1 bt \<noteq> 0
         then (if bt_next s1 bt \<noteq> NULL then bt_clr_prevfree s1 (bt_next s1 bt) else s1)
         else (let s2 = (if bt_next s1 bt \<noteq> NULL then bt_set_prevfree s1 (bt_next s1 bt)
                         else s1)
               in PUT s2 (bt_footer s2 bt) (PACK sz (ucast flags))))"

definition round_up :: "size_t \<Rightarrow> size_t" where
  "round_up sz = (sz + ALIGNMENT - 1) AND (- ALIGNMENT)"

subsection \<open>The explicit free lists\<close>

text \<open>A link is the signed distance, counted in 4-byte words, from \<open>heap_start\<close>;
  a negative link reads as \<^verbatim>\<open>NULL\<close>.\<close>

definition get_free_next :: "state \<Rightarrow> ptr \<Rightarrow> ptr" where
  "get_free_next s block_ptr =
     (let next = mem s (block_ptr + 4)
      in if next <s 0 then NULL else heap_start s + 4 * scast next)"

definition get_free_prev :: "state \<Rightarrow> ptr \<Rightarrow> ptr" where
  "get_free_prev s block_ptr =
     (let prev = mem s (block_ptr + 8)
      in if prev <s 0 then NULL else heap_start s + 4 * scast prev)"

text \<open>\<^verbatim>\<open>(word_t)(next_block - heap_start)\<close>: the pointer difference counts words.\<close>

definition set_free_next :: "state \<Rightarrow> ptr \<Rightarrow> ptr \<Rightarrow> state" where
  "set_free_next s block_ptr next_block =
     s\<lparr>mem := (mem s)(block_ptr + 4 := word_of_int (sint (next_block - heap_start s) div 4))\<rparr>"

definition set_free_prev :: "state \<Rightarrow> ptr \<Rightarrow> ptr \<Rightarrow> state" where
  "set_free_prev s block_ptr prev_block =
     s\<lparr>mem := (mem s)(block_ptr + 8 := word_of_int (sint (prev_block - heap_start s) div 4))\<rparr>"

definition free_list_append :: "state \<Rightarrow> ptr \<Rightarrow> nat \<Rightarrow> state" where
  "free_list_append s block_ptr index =
     (let s1 = set_free_prev s block_ptr (heap_start s - 4);
          s2 = (if segregated_list s1 ! index = NULL
                then set_free_next s1 block_ptr (heap_start s1 - 4)
                else set_free_next (set_free_prev s1 (segregated_list s1 ! index) block_ptr)
                       block_ptr (segregated_list s1 ! index))
      in s2\<lparr>segregated_list := (segregated_list s2)[index := block_ptr]\<rparr>)"

definition free_list_delete :: "state \<Rightarrow> ptr \<Rightarrow> nat \<Rightarrow> state" where
  "free_list_delete s block_ptr index =
     (if segregated_list s ! index = block_ptr \<and> get_free_next s block_ptr = NULL
      then s\<lparr>segregated_list := (segregated_list s)[index := NULL]\<rparr>
      else if segregated_list s ! index = block_ptr
      then (let s1 = set_free_prev s (get_free_next s block_ptr) (heap_start s - 4)
            in s1\<lparr>segregated_list := (segregated_list s1)[index := get_free_next s1 block_ptr]\<rparr>)
      else if segregated_list s ! index \<noteq> block_ptr \<and> get_free_next s block_ptr \<noteq> NULL
      then (let s1 = set_free_next s (get_free_prev s block_ptr) (get_free_next s block_ptr)
            in set_free_prev s1 (get_free_next s1 block_ptr) (get_free_prev s1 block_ptr))
      else (let s1 = set_free_next s (get_free_prev s block_ptr) (heap_start s - 4)
            in s1\<lparr>last_free := get_free_prev s1 block_ptr\<rparr>))"

subsection \<open>The size classes\<close>

definition get_index :: "size_t \<Rightarrow> nat" where
  "get_index sz =
     (if sz \<le> 512 then
        (if sz \<le> 64 then
           (if sz = 16 then 0 else if sz = 32 then 1 else 2)
         else if sz \<le> 256 then
           (if sz \<le> 128 then 3 else 4)
         else 5)
      else if sz \<le> 2048 then
        (if sz \<le> 1024 then 6 else 7)
      else 8)"

subsection \<open>Initialisation and heap extension\<close>

text \<open>\<^verbatim>\<open>mm_init\<close> returns 0, or -1 when the provider fails (the first failure also
  leaves \<^verbatim>\<open>(void *)-1\<close> in the pointer \<^verbatim>\<open>segregated_list\<close>, which the model does not
  keep).\<close>

definition mm_init :: "state \<Rightarrow> int \<times> state" where
  "mm_init s =
     (case mem_sbrk s (8 * of_nat NUM_LIST) of
        None \<Rightarrow> (- 1, s)
      | Some (array, s1) \<Rightarrow>
          (let s2 = s1\<lparr>segregated_list := replicate NUM_LIST NULL\<rparr>
           in case mem_sbrk s2 (2 * ALIGNMENT) of
                None \<Rightarrow> (- 1, s2\<lparr>heap_start := - 1\<rparr>)
              | Some (base, s3) \<Rightarrow>
                  (let s4 = s3\<lparr>heap_start := base\<rparr>;
                       s5 = PUT s4 (heap_start s4) 0;
                       s6 = bt_make s5 (heap_start s5) 20 USED;
                       s7 = PUT s6 (heap_start s6 + 4 * 5) (PACK 0 (ucast USED));
                       s8 = s7\<lparr>heap_start := heap_start s7 + 4 * 5\<rparr>;
                       s9 = s8\<lparr>heap_end := heap_start s8\<rparr>
                   in (0, s9\<lparr>last_blk := NULL, free_list_start := NULL,
                               last_free := NULL\<rparr>))))"

text \<open>\<^verbatim>\<open>extend_heap\<close> returns the new block, or \<^verbatim>\<open>NULL\<close> with the state as it
  was when the provider fails.\<close>

definition extend_heap :: "state \<Rightarrow> size_t \<Rightarrow> ptr \<times> state" where
  "extend_heap s sz =
     (case mem_sbrk s sz of
        None \<Rightarrow> (NULL, s)
      | Some (brk, s0) \<Rightarrow>
          (let absorb = (last_blk s0 \<noteq> NULL \<and> bt_free s0 (last_blk s0));
               block_ptr = (if absorb then last_blk s0 else heap_end s0);
               s1 = (if absorb
                     then free_list_delete s0 block_ptr (get_index (bt_size s0 (last_blk s0)))
                     else s0);
               sz1 = (if absorb then sz + bt_size s1 (last_blk s1) else sz);
               s2 = bt_make s1 block_ptr sz1 USED;
               s3 = PUT s2 (block_ptr + sz1) (PACK 0 (ucast USED));
               s4 = s3\<lparr>last_blk := block_ptr\<rparr>
           in (block_ptr, s4\<lparr>heap_end := block_ptr + sz1\<rparr>)))"

subsection \<open>Fit search\<close>

text \<open>The inner \<^verbatim>\<open>for\<close> loop of \<^verbatim>\<open>find_fit\<close> follows the links of one bucket; on
  a cyclic list it does not end, so it is a partial function: \<open>None\<close> stands for a scan
  that never returns.\<close>

partial_function (option) find_fit_scan :: "state \<Rightarrow> size_t \<Rightarrow> ptr \<Rightarrow> ptr \<Rightarrow> ptr option" where
  "find_fit_scan s asize p best_fit =
     (if p = NULL then Some best_fit
      else find_fit_scan s asize (get_free_next s p)
             (if bt_size s p \<ge> asize \<and>
                 (best_fit = NULL \<or> bt_size s p < bt_size s best_fit)
              then p else best_fit))"

declare find_fit_scan.simps [code]

function find_fit_loop :: "state \<Rightarrow> size_t \<Rightarrow> ptr \<Rightarrow> nat \<Rightarrow> ptr option" where
  "find_fit_loop s asize best_fit index =
     (if index < NUM_LIST
      then (case find_fit_scan s asize (segregated_list s ! index) best_fit of
              None \<Rightarrow> None
            | Some best \<Rightarrow>
                if best \<noteq> NULL then Some best
                else find_fit_loop s asize best (index + 1))
      else Some NULL)"
  by pat_completeness auto
termination
  by (relation "measure (\<lambda>(s, asize, best_fit, index). NUM_LIST - index)") auto

declare find_fit_loop.simps [simp del]

definition find_fit :: "state \<Rightarrow> size_t \<Rightarrow> ptr option" where
  "find_fit s asize = find_fit_loop s asize NULL (get_index asize)"

subsection \<open>Placement\<close>

definition place :: "state \<Rightarrow> ptr \<Rightarrow> size_t \<Rightarrow> state" where
  "place s block_ptr asize =
     (let fsize = bt_size s block_ptr;
          s1 = free_list_delete s block_ptr (get_index fsize)
      in if fsize - asize \<ge> ALIGNMENT
         then (let s2 = bt_make s1 block_ptr asize (USED OR bt_get_prevfree s1 block_ptr);
                   rest = bt_next s2 block_ptr;
                   s3 = bt_make s2 rest (fsize - asize) FREE;
                   s4 = free_list_append s3 rest (get_index (fsize - asize))
               in if last_blk s4 < rest then s4\<lparr>last_blk := rest\<rparr> else s4)
         else bt_make s1 block_ptr fsize (USED OR bt_get_prevfree s1 block_ptr))"

subsection \<open>The public operations\<close>

text \<open>\<^verbatim>\<open>malloc\<close> returns the payload pointer (or \<^verbatim>\<open>NULL\<close>) and the new state;
  \<open>None\<close> when the fit search does not return.\<close>

definition malloc :: "state \<Rightarrow> size_t \<Rightarrow> (ptr \<times> state) option" where
  "malloc s sz =
     (if sz = 0 then Some (NULL, s)
      else (let asize = round_up (sz + WSIZE)
            in case find_fit s asize of
                 None \<Rightarrow> None
               | Some block_ptr \<Rightarrow>
                   if block_ptr \<noteq> NULL
                   then Some (bt_payload block_ptr, place s block_ptr asize)
                   else (let extend_size =
                               (if last_blk s \<noteq> NULL \<and> bt_free s (last_blk s)
                                then asize - bt_size s (last_blk s) else asize);
                             (new_block, s') = extend_heap s extend_size
                         in if new_block = NULL then Some (NULL, s')
                            else Some (bt_payload new_block, s'))))"

text \<open>In \<^verbatim>\<open>coalesce\<close> the local \<^verbatim>\<open>size\<close> is a \<^verbatim>\<open>word_t\<close>: every sum is cut to
  32 bits and sign-extended again where a \<^verbatim>\<open>size_t\<close> is expected.\<close>

definition coalesce :: "state \<Rightarrow> ptr \<Rightarrow> ptr \<times> state" where
  "coalesce s block_ptr =
     (let prev_block = bt_prev s block_ptr;
          next_block = bt_next s block_ptr;
          sz0 = (ucast (bt_size s block_ptr) :: word_t);
          prev_free = bt_get_prevfree s block_ptr;
          next_free = bt_free s next_block;
          change_last = (block_ptr = last_blk s \<or> (next_block = last_blk s \<and> next_free));
          sz1 = (if next_free then ucast (scast sz0 + bt_size s next_block) else sz0);
          s1 = (if next_free
                then free_list_delete s next_block (get_index (bt_size s next_block))
                else s);
          sz2 = (if prev_free \<noteq> 0 then ucast (scast sz1 + bt_size s1 prev_block) else sz1);
          merged = (if prev_free \<noteq> 0 then prev_block else block_ptr);
          s2 = (if prev_free \<noteq> 0
                then free_list_delete s1 merged (get_index (bt_size s1 merged))
                else s1);
          s3 = bt_make s2 merged (scast sz2) FREE;
          s4 = free_list_append s3 merged (get_index (scast sz2))
      in (merged, if change_last then s4\<lparr>last_blk := merged\<rparr> else s4))"

text \<open>The test \<^verbatim>\<open>bt_get_prevfree(block_ptr) || bt_free(bt_next(block_ptr))\<close> is written
  with its short-circuit: the second operand is read only when the first is 0.\<close>

definition free :: "state \<Rightarrow> ptr \<Rightarrow> state" where
  "free s p =
     (if p = NULL then s
      else (let block_ptr = bt_header p;
                s1 = bt_make s block_ptr (bt_size s block_ptr)
                       (FREE OR bt_get_prevfree s block_ptr)
            in if (if bt_get_prevfree s1 block_ptr \<noteq> 0 then True
                   else bt_free s1 (bt_next s1 block_ptr))
               then snd (coalesce s1 block_ptr)
               else free_list_append s1 block_ptr (get_index (bt_size s1 block_ptr))))"

text \<open>The C library's \<^verbatim>\<open>memcpy\<close> on the word-addressed heap: every word whose offset
  from \<open>dest\<close> is below \<open>n\<close> receives the word at the same offset from \<open>src\<close>.
  \<^verbatim>\<open>realloc\<close> only passes lengths that are multiples of 4.\<close>

definition memcpy :: "state \<Rightarrow> ptr \<Rightarrow> ptr \<Rightarrow> size_t \<Rightarrow> state" where
  "memcpy s dest src n =
     s\<lparr>mem := (\<lambda>a. if a - dest < n \<and> (a - dest) AND 3 = 0
                     then mem s (src + (a - dest)) else mem s a)\<rparr>"

definition realloc :: "state \<Rightarrow> ptr \<Rightarrow> size_t \<Rightarrow> (ptr \<times> state) option" where
  "realloc s p sz =
     (if p = NULL then malloc s sz
      else if sz = 0 then Some (NULL, free s p)
      else (let block_ptr = bt_header p;
                next = bt_next s block_ptr;
                asize = round_up (sz + WSIZE);
                next_free = bt_free s next;
                free_size = (if next_free then bt_size s block_ptr + bt_size s next
                             else bt_size s block_ptr);
                change_last = (block_ptr = last_blk s \<or> (next = last_blk s \<and> next_free))
            in if free_size < asize
               then (if change_last
                     then (let (new_block, s1) = extend_heap s (asize - free_size)
                           in if new_block = NULL then Some (NULL, s1)
                              else (let s2 = bt_make s1 block_ptr asize USED
                                    in Some (p, s2\<lparr>last_blk := block_ptr\<rparr>)))
                     else (case malloc s sz of
                             None \<Rightarrow> None
                           | Some (new_ptr, s1) \<Rightarrow>
                               if new_ptr = NULL then Some (NULL, s1)
                               else (let s2 = memcpy s1 new_ptr p (free_size - WSIZE)
                                     in Some (new_ptr, free s2 p))))
               else (let s1 = (if next_free
                               then free_list_delete s next (get_index (bt_size s next))
                               else s)
                     in if free_size - asize \<ge> ALIGNMENT
                        then (let s2 = bt_make s1 block_ptr asize
                                         (USED OR bt_get_prevfree s1 block_ptr);
                                  rest = bt_next s2 block_ptr;
                                  s3 = bt_make s2 rest (free_size - asize) FREE;
                                  s4 = free_list_append s3 rest (get_index (free_size - asize))
                              in Some (p, if change_last then s4\<lparr>last_blk := rest\<rparr> else s4))
                        else (let s2 = bt_make s1 block_ptr free_size
                                         (USED OR bt_get_prevfree s1 block_ptr)
                              in Some (p, if change_last then s2\<lparr>last_blk := block_ptr\<rparr>
                                          else s2)))))"

text \<open>The C library's \<^verbatim>\<open>memset\<close> with the byte 0: whole words below offset \<open>n\<close> become
  0; of a last, partial word only the low-address bytes are cleared (little endian).\<close>

definition memset_zero :: "state \<Rightarrow> ptr \<Rightarrow> size_t \<Rightarrow> state" where
  "memset_zero s dest n =
     s\<lparr>mem := (\<lambda>a. if a - dest < n \<and> (a - dest) AND 3 = 0
                     then (if n - (a - dest) < 4
                           then mem s a AND NOT (mask (8 * unat (n - (a - dest))))
                           else 0)
                     else mem s a)\<rparr>"

definition calloc :: "state \<Rightarrow> size_t \<Rightarrow> size_t \<Rightarrow> (ptr \<times> state) option" where
  "calloc s nmemb sz =
     (let bytes = nmemb * sz
      in case malloc s bytes of
           None \<Rightarrow> None
         | Some (new_ptr, s1) \<Rightarrow>
             Some (new_ptr, if new_ptr \<noteq> NULL then memset_zero s1 new_ptr bytes else s1))"

subsection \<open>The walk of the heap checker\<close>

text \<open>\<^verbatim>\<open>mm_checkheap\<close> visits the blocks from \<open>heap_start\<close> while the size is positive
  and \<^verbatim>\<open>bt_next\<close> is not \<^verbatim>\<open>NULL\<close>. The blocks it visits, in order:\<close>

partial_function (option) checkheap_walk :: "state \<Rightarrow> ptr \<Rightarrow> ptr list \<Rightarrow> ptr list option" where
  "checkheap_walk s bt visited =
     (if bt \<noteq> NULL \<and> bt_size s bt > 0
      then checkheap_walk s (bt_next s bt) (visited @ [bt])
      else Some visited)"

declare checkheap_walk.simps [code]

definition heap_blocks :: "state \<Rightarrow> ptr list option" where
  "heap_blocks s = checkheap_walk s (heap_start s) []"


section \<open>Specification-side notions\<close>

text \<open>The size-class table of the specification (its section 3), row by row. A size that no
  row names has no class.\<close>

definition size_class :: "size_t \<Rightarrow> nat option" where
  "size_class sz =
     (if sz = 16 then Some 0
      else if sz = 32 then Some 1
      else if 32 < sz \<and> sz \<le> 64 then Some 2
      else if 64 < sz \<and> sz \<le> 128 then Some 3
      else if 128 < sz \<and> sz \<le> 256 then Some 4
      else if 256 < sz \<and> sz \<le> 512 then Some 5
      else if 512 < sz \<and> sz \<le> 1024 then Some 6
      else if 1024 < sz \<and> sz \<le> 2048 then Some 7
      else if 2048 < sz then Some 8
      else None)"

text \<open>\<open>free_list s p bs\<close>: the chain of next links that starts at \<open>p\<close> visits exactly the
  blocks \<open>bs\<close>, in this order, and then reaches \<^verbatim>\<open>NULL\<close>.\<close>

fun free_list :: "state \<Rightarrow> ptr \<Rightarrow> ptr list \<Rightarrow> bool" where
  "free_list s p [] = (p = NULL)"
| "free_list s p (b # bs) = (p \<noteq> NULL \<and> p = b \<and> free_list s (get_free_next s p) bs)"

text \<open>The body of the inner loop of \<^verbatim>\<open>find_fit\<close>: the candidate kept after looking at
  block \<open>p\<close>.\<close>

definition scan_step :: "state \<Rightarrow> size_t \<Rightarrow> ptr \<Rightarrow> ptr \<Rightarrow> ptr" where
  "scan_step s asize best p =
     (if bt_size s p \<ge> asize \<and> (best = NULL \<or> bt_size s p < bt_size s best)
      then p else best)"

definition no_fit :: "state \<Rightarrow> size_t \<Rightarrow> ptr list \<Rightarrow> bool" where
  "no_fit s asize bs = (\<forall>b\<in>set bs. bt_size s b < asize)"

text \<open>\<open>fit_from s asize bucket i r\<close>: \<open>r\<close> is what a search that starts at bucket \<open>i\<close> has to
  return: \<^verbatim>\<open>NULL\<close> when no bucket from \<open>i\<close> on holds a block of at least \<open>asize\<close> bytes,
  and otherwise a smallest such block of the first bucket that holds one.\<close>

definition fit_from :: "state \<Rightarrow> size_t \<Rightarrow> (nat \<Rightarrow> ptr list) \<Rightarrow> nat \<Rightarrow> ptr \<Rightarrow> bool" where
  "fit_from s asize bucket i r =
     ((r = NULL) = (\<forall>j. i \<le> j \<and> j < NUM_LIST \<longrightarrow> no_fit s asize (bucket j)) \<and>
      (r \<noteq> NULL \<longrightarrow>
         (\<exists>j. i \<le> j \<and> j < NUM_LIST \<and> r \<in> set (bucket j) \<and> asize \<le> bt_size s r \<and>
              (\<forall>b\<in>set (bucket j). asize \<le> bt_size s b \<longrightarrow> bt_size s r \<le> bt_size s b) \<and>
              (\<forall>k. i \<le> k \<and> k < j \<longrightarrow> no_fit s asize (bucket k)))))"

text \<open>Invariant I3 over the blocks the heap checker visits: in every pair of physically
  adjacent blocks the second has \<^verbatim>\<open>PREVFREE\<close> set exactly when the first is free.\<close>

definition prevfree_consistent :: "state \<Rightarrow> bool" where
  "prevfree_consistent s =
     (case heap_blocks s of
        None \<Rightarrow> False
      | Some bs \<Rightarrow>
          list_all (\<lambda>(a, b). (bt_get_prevfree s b \<noteq> 0) = bt_free s a) (zip bs (tl bs)))"

text \<open>Invariant I4: no two physically adjacent blocks are both free.\<close>

definition no_adjacent_free :: "state \<Rightarrow> bool" where
  "no_adjacent_free s =
     (case heap_blocks s of
        None \<Rightarrow> False
      | Some bs \<Rightarrow> list_all (\<lambda>(a, b). \<not> (bt_free s a \<and> bt_free s b)) (zip bs (tl bs)))"

text \<open>A block header whose payload, 4 bytes further, is 16-byte aligned.\<close>

definition header_aligned :: "ptr \<Rightarrow> bool" where
  "header_aligned b = (unat b mod 16 = 12)"

text \<open>The driver's own stores: the caller writes the word \<open>v\<close> at address \<open>a\<close> of a payload
  it was given.\<close>

definition user_store :: "state \<Rightarrow> ptr \<Rightarrow> word_t \<Rightarrow> state" where
  "user_store s a v = s\<lparr>mem := (mem s)(a := v)\<rparr>"

section \<open>Concrete heaps\<close>

text \<open>A fresh process: the globals are zero, the memory is zeroed, and the provider hands out
  the addresses from 4096 (16-byte aligned) up to 1048576.\<close>

definition fresh :: state where
  "fresh = \<lparr>mem = (\<lambda>_. 0), heap_start = 0, heap_end = 0, last_blk = 0, segregated_list = [],
     free_list_start = 0, last_free = 0, mem_brk = 4096, mem_max_addr = 1048576\<rparr>"

text \<open>The heaps reached from \<open>fresh\<close> by the call sequences used below; each is written out,
  and the lemmas \<open>run_\<dots>\<close> show that the calls produce it.
  \<^item> \<open>heap0\<close>: after \<^verbatim>\<open>mm_init\<close>.
  \<^item> \<open>heapA1\<close>, \<open>heapA2\<close>: after \<^verbatim>\<open>a = malloc(24)\<close> and \<^verbatim>\<open>b = malloc(24)\<close>
    (\<open>a = 4192\<close>, \<open>b = 4224\<close>); \<open>heapA3\<close>: after \<^verbatim>\<open>free(a)\<close>; \<open>heapA4\<close>: after
    \<^verbatim>\<open>realloc(b, 100)\<close>; \<open>heapA5\<close>: after \<^verbatim>\<open>free(b)\<close>.
  \<^item> \<open>heapB3\<close>: \<open>heapA2\<close> after \<^verbatim>\<open>c = malloc(24)\<close>; \<open>heapB4\<close>: after \<^verbatim>\<open>free(b)\<close>;
    \<open>heapB5\<close>: after the \<^verbatim>\<open>malloc(100)\<close> inside \<^verbatim>\<open>realloc(a, 100)\<close>.
  \<^item> \<open>heapC1\<close>, \<open>heapC2\<close>: \<open>heap0\<close> after \<^verbatim>\<open>p = malloc(1)\<close> and \<^verbatim>\<open>free(p)\<close>.
  \<^item> \<open>heapD1\<close>, \<open>heapD2\<close>: \<open>heap0\<close> after \<^verbatim>\<open>p = malloc(100)\<close> and \<^verbatim>\<open>free(p)\<close>;
    \<open>heapD3\<close>: after four stores of the caller; \<open>heapD4\<close>: after \<^verbatim>\<open>malloc(50)\<close>.
  \<^item> \<open>heapE3\<close>: \<open>heapA2\<close> after \<^verbatim>\<open>free(b)\<close>; \<open>heapE4\<close>: after \<^verbatim>\<open>malloc(100)\<close>.
\<close>

definition heap0 :: state where
  "heap0 =
     \<lparr>mem = (\<lambda>_. 0)(4168 := 21, 4188 := 1), heap_start = 4188, heap_end =
     4188, last_blk = 0, segregated_list = [0, 0, 0, 0, 0, 0, 0, 0, 0], free_list_start = 0,
     last_free = 0, mem_brk = 4200, mem_max_addr = 1048576\<rparr>"

definition heapA1 :: state where
  "heapA1 =
     \<lparr>mem = (\<lambda>_. 0)(4168 := 21, 4188 := 33, 4220 := 1), heap_start = 4188,
     heap_end = 4220, last_blk = 4188, segregated_list = [0, 0, 0, 0, 0, 0, 0, 0, 0],
     free_list_start = 0, last_free = 0, mem_brk = 4232, mem_max_addr = 1048576\<rparr>"

definition heapA2 :: state where
  "heapA2 =
     \<lparr>mem = (\<lambda>_. 0)(4168 := 21, 4188 := 33, 4220 := 33, 4252 := 1),
     heap_start = 4188, heap_end = 4252, last_blk = 4220, segregated_list = [0, 0, 0, 0, 0,
     0, 0, 0, 0], free_list_start = 0, last_free = 0, mem_brk = 4264, mem_max_addr =
     1048576\<rparr>"

definition heapA3 :: state where
  "heapA3 =
     \<lparr>mem = (\<lambda>_. 0) (4168 := 21, 4252 := 1, 4188 := 32, 4220 := 35, 4216 :=
     32, 4196 := - 1, 4192 := - 1), heap_start = 4188, heap_end = 4252, last_blk = 4220,
     segregated_list = [0, 4188, 0, 0, 0, 0, 0, 0, 0], free_list_start = 0, last_free = 0,
     mem_brk = 4264, mem_max_addr = 1048576\<rparr>"

definition heapA4 :: state where
  "heapA4 =
     \<lparr>mem = (\<lambda>_. 0) (4168 := 21, 4188 := 32, 4216 := 32, 4196 := - 1, 4192 :=
     - 1, 4252 := 81, 4220 := 113, 4332 := 1), heap_start = 4188, heap_end = 4332, last_blk
     = 4220, segregated_list = [0, 4188, 0, 0, 0, 0, 0, 0, 0], free_list_start = 0,
     last_free = 0, mem_brk = 4344, mem_max_addr = 1048576\<rparr>"

definition heapA5 :: state where
  "heapA5 =
     \<lparr>mem = (\<lambda>_. 0) (4168 := 21, 4188 := 32, 4216 := 32, 4196 := - 1, 4192 :=
     - 1, 4252 := 81, 4220 := 112, 4332 := 3, 4328 := 112, 4228 := - 1, 4224 := - 1),
     heap_start = 4188, heap_end = 4332, last_blk = 4220, segregated_list = [0, 4188, 0,
     4220, 0, 0, 0, 0, 0], free_list_start = 0, last_free = 0, mem_brk = 4344, mem_max_addr
     = 1048576\<rparr>"

definition heapB3 :: state where
  "heapB3 =
     \<lparr>mem = (\<lambda>_. 0)(4168 := 21, 4188 := 33, 4220 := 33, 4252 := 33, 4284 :=
     1), heap_start = 4188, heap_end = 4284, last_blk = 4252, segregated_list = [0, 0, 0, 0,
     0, 0, 0, 0, 0], free_list_start = 0, last_free = 0, mem_brk = 4296, mem_max_addr =
     1048576\<rparr>"

definition heapB4 :: state where
  "heapB4 =
     \<lparr>mem = (\<lambda>_. 0) (4168 := 21, 4188 := 33, 4284 := 1, 4220 := 32, 4252 :=
     35, 4248 := 32, 4228 := - 1, 4224 := - 1), heap_start = 4188, heap_end = 4284, last_blk
     = 4252, segregated_list = [0, 4220, 0, 0, 0, 0, 0, 0, 0], free_list_start = 0,
     last_free = 0, mem_brk = 4296, mem_max_addr = 1048576\<rparr>"

definition heapB5 :: state where
  "heapB5 =
     \<lparr>mem = (\<lambda>_. 0) (4168 := 21, 4188 := 33, 4220 := 32, 4252 := 35, 4248 :=
     32, 4228 := - 1, 4224 := - 1, 4284 := 113, 4396 := 1), heap_start = 4188, heap_end =
     4396, last_blk = 4284, segregated_list = [0, 4220, 0, 0, 0, 0, 0, 0, 0],
     free_list_start = 0, last_free = 0, mem_brk = 4408, mem_max_addr = 1048576\<rparr>"

definition heapC1 :: state where
  "heapC1 =
     \<lparr>mem = (\<lambda>_. 0)(4168 := 21, 4188 := 17, 4204 := 1), heap_start = 4188,
     heap_end = 4204, last_blk = 4188, segregated_list = [0, 0, 0, 0, 0, 0, 0, 0, 0],
     free_list_start = 0, last_free = 0, mem_brk = 4216, mem_max_addr = 1048576\<rparr>"

definition heapC2 :: state where
  "heapC2 =
     \<lparr>mem = (\<lambda>_. 0) (4168 := 21, 4188 := 16, 4204 := 3, 4200 := 16, 4196 := -
     1, 4192 := - 1), heap_start = 4188, heap_end = 4204, last_blk = 4188, segregated_list =
     [4188, 0, 0, 0, 0, 0, 0, 0, 0], free_list_start = 0, last_free = 0, mem_brk = 4216,
     mem_max_addr = 1048576\<rparr>"

definition heapD1 :: state where
  "heapD1 =
     \<lparr>mem = (\<lambda>_. 0)(4168 := 21, 4188 := 113, 4300 := 1), heap_start = 4188,
     heap_end = 4300, last_blk = 4188, segregated_list = [0, 0, 0, 0, 0, 0, 0, 0, 0],
     free_list_start = 0, last_free = 0, mem_brk = 4312, mem_max_addr = 1048576\<rparr>"

definition heapD2 :: state where
  "heapD2 =
     \<lparr>mem = (\<lambda>_. 0) (4168 := 21, 4188 := 112, 4300 := 3, 4296 := 112, 4196 :=
     - 1, 4192 := - 1), heap_start = 4188, heap_end = 4300, last_blk = 4188, segregated_list
     = [0, 0, 0, 4188, 0, 0, 0, 0, 0], free_list_start = 0, last_free = 0, mem_brk = 4312,
     mem_max_addr = 1048576\<rparr>"

definition heapD3 :: state where
  "heapD3 =
     \<lparr>mem = (\<lambda>_. 0) (4168 := 21, 4188 := 112, 4300 := 3, 4296 := 112, 4196 :=
     - 1, 4192 := 3, 4200 := 64, 4204 := - 1, 4208 := 0), heap_start = 4188, heap_end =
     4300, last_blk = 4188, segregated_list = [0, 0, 0, 4188, 0, 0, 0, 0, 0],
     free_list_start = 0, last_free = 0, mem_brk = 4312, mem_max_addr = 1048576\<rparr>"

definition heapD4 :: state where
  "heapD4 =
     \<lparr>mem = (\<lambda>_. 0) (4168 := 21, 4188 := 112, 4300 := 3, 4296 := 112, 4196 :=
     - 1, 4204 := - 1, 4208 := 0, 4192 := - 1, 4200 := 65, 4264 := 0), heap_start = 4188,
     heap_end = 4300, last_blk = 4188, segregated_list = [0, 0, 0, 4188, 0, 0, 0, 0, 0],
     free_list_start = 0, last_free = 4188, mem_brk = 4312, mem_max_addr = 1048576\<rparr>"

definition heapE3 :: state where
  "heapE3 =
     \<lparr>mem = (\<lambda>_. 0) (4168 := 21, 4188 := 33, 4220 := 32, 4252 := 3, 4248 :=
     32, 4228 := - 1, 4224 := - 1), heap_start = 4188, heap_end = 4252, last_blk = 4220,
     segregated_list = [0, 4220, 0, 0, 0, 0, 0, 0, 0], free_list_start = 0, last_free = 0,
     mem_brk = 4264, mem_max_addr = 1048576\<rparr>"

definition heapE4 :: state where
  "heapE4 =
     \<lparr>mem = (\<lambda>_. 0) (4168 := 21, 4188 := 33, 4252 := 3, 4248 := 32, 4228 := -
     1, 4224 := - 1, 4220 := 113, 4332 := 1), heap_start = 4188, heap_end = 4332, last_blk =
     4220, segregated_list = [0, 0, 0, 0, 0, 0, 0, 0, 0], free_list_start = 0, last_free =
     0, mem_brk = 4344, mem_max_addr = 1048576\<rparr>"


text \<open>\<open>heapA2\<close> with the provider exhausted: the break has reached the limit.\<close>

definition heapA2_full :: state where
  "heapA2_full = heapA2\<lparr>mem_max_addr := mem_brk heapA2\<rparr>"



text \<open>\<open>heapA1\<close> at the point inside \<^verbatim>\<open>extend_heap\<close> where the header of the new block is
  written but \<open>heap_end\<close> still is the old one.\<close>

definition heapA1_mid :: state where
  "heapA1_mid = heapA1\<lparr>heap_end := 4188\<rparr>"

text \<open>Scenario S4 of the specification as it is worded: free blocks of 64, 48 and 80 bytes
  (at 4188, 4268 and 4332, separated by allocated 16-byte blocks) on the list of bucket 2, in
  this order. (\<^verbatim>\<open>free\<close> itself would put the 80-byte block on bucket 3.)\<close>

definition heapS4 :: state where
  "heapS4 =
     \<lparr>mem = (\<lambda>_. 0)(4168 := 21, 4188 := 64, 4192 := 20, 4196 := - 1, 4248 := 64,
        4252 := 19, 4268 := 48, 4272 := 36, 4276 := 0, 4312 := 48, 4316 := 19,
        4332 := 80, 4336 := - 1, 4340 := 20, 4408 := 80, 4412 := 3),
      heap_start = 4188, heap_end = 4412, last_blk = 4332,
      segregated_list = [0, 0, 4188, 0, 0, 0, 0, 0, 0], free_list_start = 0, last_free = 0,
      mem_brk = 4424, mem_max_addr = 1048576\<rparr>"

definition bucketS4 :: "nat \<Rightarrow> ptr list" where
  "bucketS4 i = (if i = 2 then [4188, 4268, 4332] else [])"

text \<open>The bucket lists of \<open>heapA5\<close>: the 32-byte block on bucket 1, the 112-byte block on
  bucket 3.\<close>

definition bucketA5 :: "nat \<Rightarrow> ptr list" where
  "bucketA5 i = (if i = 1 then [4188] else if i = 3 then [4220] else [])"

text \<open>The bucket lists of \<open>heapC2\<close>: the 16-byte block on bucket 0.\<close>

definition bucketC2 :: "nat \<Rightarrow> ptr list" where
  "bucketC2 i = (if i = 0 then [4188] else [])"

section \<open>Lemmas about the operations\<close>

subsection \<open>Size classes\<close>

lemma get_index_table: "size_class sz = Some i \<Longrightarrow> get_index sz = i"
  unfolding get_index_def size_class_def
  by (auto simp: word_le_nat_alt word_less_nat_alt word_unat_eq_iff split: if_splits)

lemma get_index_mono:
  "s1 \<le> s2 \<Longrightarrow> s1 = 16 \<or> 32 \<le> s1 \<Longrightarrow> get_index s1 \<le> get_index s2"
  unfolding get_index_def
  by (auto simp: word_le_nat_alt word_less_nat_alt word_unat_eq_iff)

subsection \<open>Headers\<close>

lemma round_up_low_bits: "round_up x AND 3 = 0"
proof -
  have "(- 16 :: size_t) AND 3 = 0" by simp
  then show ?thesis
    unfolding round_up_def ALIGNMENT_def by (simp add: and.assoc)
qed





lemma bt_make_frame [simp]:
  "heap_start (bt_make s b a f) = heap_start s"
  "heap_end (bt_make s b a f) = heap_end s"
  "last_blk (bt_make s b a f) = last_blk s"
  "mem_brk (bt_make s b a f) = mem_brk s"
  by (simp_all add: bt_make_def Let_def PUT_def bt_clr_prevfree_def bt_set_prevfree_def)



subsection \<open>Links\<close>





lemma free_list_delete_frame [simp]:
  "heap_start (free_list_delete s b i) = heap_start s"
  "heap_end (free_list_delete s b i) = heap_end s"
  "last_blk (free_list_delete s b i) = last_blk s"
  "mem_brk (free_list_delete s b i) = mem_brk s"
  "mem_max_addr (free_list_delete s b i) = mem_max_addr s"
  by (simp_all add: free_list_delete_def Let_def set_free_next_def set_free_prev_def)





subsection \<open>The provider and the extender\<close>


lemma extend_heap_fail: "mem_sbrk s n = None \<Longrightarrow> extend_heap s n = (NULL, s)"
  by (simp add: extend_heap_def)

lemma malloc_fail:
  "sz \<noteq> 0 \<Longrightarrow> find_fit s (round_up (sz + WSIZE)) = Some NULL \<Longrightarrow>
   mem_sbrk s (if last_blk s \<noteq> NULL \<and> bt_free s (last_blk s)
               then round_up (sz + WSIZE) - bt_size s (last_blk s)
               else round_up (sz + WSIZE)) = None \<Longrightarrow>
   malloc s sz = Some (NULL, s)"
  by (simp add: malloc_def Let_def extend_heap_fail)

subsection \<open>The scan of one bucket\<close>

lemma scan_list:
  "free_list s p bs \<Longrightarrow>
   find_fit_scan s asize p best = Some (foldl (scan_step s asize) best bs)"
proof (induction bs arbitrary: p best)
  case Nil
  then show ?case by (simp add: find_fit_scan.simps)
next
  case (Cons b bs)
  from Cons.prems have p: "p \<noteq> NULL" "b = p" and rest: "free_list s (get_free_next s p) bs"
    by auto
  have "find_fit_scan s asize p best =
          find_fit_scan s asize (get_free_next s p) (scan_step s asize best p)"
    using p(1) by (subst find_fit_scan.simps) (simp add: scan_step_def)
  also have "\<dots> = Some (foldl (scan_step s asize) (scan_step s asize best p) bs)"
    by (rule Cons.IH[OF rest])
  finally show ?case by (simp add: p(2))
qed

lemma free_list_no_null: "free_list s p bs \<Longrightarrow> NULL \<notin> set bs"
  by (induction bs arbitrary: p) auto

lemma scan_step_cases: "scan_step s asize best p = best \<or> scan_step s asize best p = p"
  by (simp add: scan_step_def)

lemma scan_null:
  "NULL \<notin> set bs \<Longrightarrow>
   (foldl (scan_step s asize) best bs = NULL) =
     (best = NULL \<and> (\<forall>b\<in>set bs. bt_size s b < asize))"
proof (induction bs arbitrary: best)
  case Nil
  then show ?case by simp
next
  case (Cons b bs)
  then have b: "b \<noteq> NULL" and n: "NULL \<notin> set bs" by auto
  show ?case
  proof (cases "asize \<le> bt_size s b \<and> (best = NULL \<or> bt_size s b < bt_size s best)")
    case True
    then have "scan_step s asize best b = b" by (simp add: scan_step_def)
    then show ?thesis using Cons.IH[OF n, of b] b True by auto
  next
    case False
    then have "scan_step s asize best b = best" by (auto simp: scan_step_def)
    then show ?thesis using Cons.IH[OF n, of best] False by auto
  qed
qed

lemma scan_mem:
  "foldl (scan_step s asize) best bs = best \<or> foldl (scan_step s asize) best bs \<in> set bs"
proof (induction bs arbitrary: best)
  case Nil
  then show ?case by simp
next
  case (Cons b bs)
  show ?case
    using Cons.IH[of "scan_step s asize best b"] scan_step_cases[of s asize best b] by auto
qed

lemma scan_le:
  "best \<noteq> NULL \<Longrightarrow> NULL \<notin> set bs \<Longrightarrow>
   bt_size s (foldl (scan_step s asize) best bs) \<le> bt_size s best"
proof (induction bs arbitrary: best)
  case Nil
  then show ?case by simp
next
  case (Cons b bs)
  then have b: "b \<noteq> NULL" and n: "NULL \<notin> set bs" by auto
  show ?case
  proof (cases "asize \<le> bt_size s b \<and> bt_size s b < bt_size s best")
    case True
    then have e: "scan_step s asize best b = b" by (simp add: scan_step_def)
    have "bt_size s (foldl (scan_step s asize) b bs) \<le> bt_size s b"
      by (rule Cons.IH[OF b n])
    also have "bt_size s b \<le> bt_size s best" using True by (auto intro: less_imp_le)
    finally show ?thesis by (simp add: e)
  next
    case False
    then have "scan_step s asize best b = best"
      using Cons.prems(1) by (auto simp: scan_step_def)
    then show ?thesis using Cons.IH[OF Cons.prems(1) n] by simp
  qed
qed

lemma scan_min:
  "NULL \<notin> set bs \<Longrightarrow> b \<in> set bs \<Longrightarrow> asize \<le> bt_size s b \<Longrightarrow>
   bt_size s (foldl (scan_step s asize) best bs) \<le> bt_size s b"
proof (induction bs arbitrary: best)
  case Nil
  then show ?case by simp
next
  case (Cons c bs)
  then have c: "c \<noteq> NULL" and n: "NULL \<notin> set bs" by auto
  show ?case
  proof (cases "b = c")
    case True
    show ?thesis
    proof (cases "best = NULL \<or> bt_size s c < bt_size s best")
      case True
      then have "scan_step s asize best c = c"
        using Cons.prems(3) \<open>b = c\<close> by (simp add: scan_step_def)
      then show ?thesis using scan_le[OF c n, of s asize] \<open>b = c\<close> by simp
    next
      case False
      then have e: "scan_step s asize best c = best" and le: "bt_size s best \<le> bt_size s c"
        and nn: "best \<noteq> NULL"
        by (auto simp: scan_step_def)
      show ?thesis
        using scan_le[OF nn n, of s asize] le e \<open>b = c\<close> by simp
    qed
  next
    case False
    then have "b \<in> set bs" using Cons.prems(2) by simp
    then show ?thesis using Cons.IH[OF n _ Cons.prems(3)] by simp
  qed
qed

lemma scan_fits:
  "best = NULL \<or> asize \<le> bt_size s best \<Longrightarrow>
   foldl (scan_step s asize) best bs \<noteq> NULL \<Longrightarrow>
   asize \<le> bt_size s (foldl (scan_step s asize) best bs)"
proof (induction bs arbitrary: best)
  case Nil
  then show ?case by auto
next
  case (Cons b bs)
  have "scan_step s asize best b = NULL \<or> asize \<le> bt_size s (scan_step s asize best b)"
    using Cons.prems(1) by (auto simp: scan_step_def)
  then show ?case using Cons.IH[of "scan_step s asize best b"] Cons.prems(2) by simp
qed

lemma bucket_scan:
  assumes "free_list s p bs"
  shows "\<exists>r. find_fit_scan s asize p NULL = Some r \<and> (r = NULL) = no_fit s asize bs \<and>
           (r \<noteq> NULL \<longrightarrow> r \<in> set bs \<and> asize \<le> bt_size s r \<and>
              (\<forall>b\<in>set bs. asize \<le> bt_size s b \<longrightarrow> bt_size s r \<le> bt_size s b))"
proof -
  let ?r = "foldl (scan_step s asize) NULL bs"
  have n: "NULL \<notin> set bs" by (rule free_list_no_null[OF assms])
  have 1: "find_fit_scan s asize p NULL = Some ?r" by (rule scan_list[OF assms])
  have 2: "(?r = NULL) = no_fit s asize bs"
    using scan_null[OF n, of s asize NULL] by (simp add: no_fit_def)
  have 3: "?r \<noteq> NULL \<longrightarrow> ?r \<in> set bs"
    using scan_mem[of s asize NULL bs] by auto
  have 4: "?r \<noteq> NULL \<longrightarrow> asize \<le> bt_size s ?r"
    using scan_fits[of NULL asize s bs] by simp
  have 5: "\<forall>b\<in>set bs. asize \<le> bt_size s b \<longrightarrow> bt_size s ?r \<le> bt_size s b"
    using scan_min[OF n] by blast
  show ?thesis using 1 2 3 4 5 by blast
qed

subsection \<open>The walk over the buckets\<close>

lemma fit_from_skip:
  assumes here: "no_fit s asize (bucket i)" and r: "fit_from s asize bucket (Suc i) r"
  shows "fit_from s asize bucket i r"
proof -
  have split: "i \<le> j \<Longrightarrow> j = i \<or> Suc i \<le> j" for j by arith
  have a: "(\<forall>j. i \<le> j \<and> j < NUM_LIST \<longrightarrow> no_fit s asize (bucket j)) =
           (\<forall>j. Suc i \<le> j \<and> j < NUM_LIST \<longrightarrow> no_fit s asize (bucket j))"
  proof
    assume "\<forall>j. i \<le> j \<and> j < NUM_LIST \<longrightarrow> no_fit s asize (bucket j)"
    then show "\<forall>j. Suc i \<le> j \<and> j < NUM_LIST \<longrightarrow> no_fit s asize (bucket j)" by simp
  next
    assume h: "\<forall>j. Suc i \<le> j \<and> j < NUM_LIST \<longrightarrow> no_fit s asize (bucket j)"
    show "\<forall>j. i \<le> j \<and> j < NUM_LIST \<longrightarrow> no_fit s asize (bucket j)"
    proof (intro allI impI)
      fix j assume "i \<le> j \<and> j < NUM_LIST"
      then show "no_fit s asize (bucket j)" using split[of j] here h by blast
    qed
  qed
  have b: "r \<noteq> NULL \<longrightarrow>
      (\<exists>j. i \<le> j \<and> j < NUM_LIST \<and> r \<in> set (bucket j) \<and> asize \<le> bt_size s r \<and>
           (\<forall>b\<in>set (bucket j). asize \<le> bt_size s b \<longrightarrow> bt_size s r \<le> bt_size s b) \<and>
           (\<forall>k. i \<le> k \<and> k < j \<longrightarrow> no_fit s asize (bucket k)))"
  proof
    assume "r \<noteq> NULL"
    then obtain j where j: "Suc i \<le> j" "j < NUM_LIST" "r \<in> set (bucket j)"
      "asize \<le> bt_size s r"
      "\<forall>b\<in>set (bucket j). asize \<le> bt_size s b \<longrightarrow> bt_size s r \<le> bt_size s b"
      "\<forall>k. Suc i \<le> k \<and> k < j \<longrightarrow> no_fit s asize (bucket k)"
      using r unfolding fit_from_def by blast
    have "\<forall>k. i \<le> k \<and> k < j \<longrightarrow> no_fit s asize (bucket k)"
    proof (intro allI impI)
      fix k assume "i \<le> k \<and> k < j"
      then show "no_fit s asize (bucket k)" using split[of k] here j(6) by blast
    qed
    moreover have "i \<le> j" using j(1) by simp
    ultimately show
      "\<exists>j. i \<le> j \<and> j < NUM_LIST \<and> r \<in> set (bucket j) \<and> asize \<le> bt_size s r \<and>
           (\<forall>b\<in>set (bucket j). asize \<le> bt_size s b \<longrightarrow> bt_size s r \<le> bt_size s b) \<and>
           (\<forall>k. i \<le> k \<and> k < j \<longrightarrow> no_fit s asize (bucket k))"
      using j(2-5) by blast
  qed
  show ?thesis
    unfolding fit_from_def using a b r unfolding fit_from_def by blast
qed

lemma fit_from_here:
  assumes "i < NUM_LIST" and "r \<noteq> NULL" and "\<not> no_fit s asize (bucket i)"
    and "r \<in> set (bucket i)" and "asize \<le> bt_size s r"
    and "\<forall>b\<in>set (bucket i). asize \<le> bt_size s b \<longrightarrow> bt_size s r \<le> bt_size s b"
  shows "fit_from s asize bucket i r"
proof -
  have "\<not> (\<forall>j. i \<le> j \<and> j < NUM_LIST \<longrightarrow> no_fit s asize (bucket j))"
    using assms(1,3) by blast
  moreover have "\<forall>k. i \<le> k \<and> k < i \<longrightarrow> no_fit s asize (bucket k)" by auto
  ultimately show ?thesis
    unfolding fit_from_def using assms(1,2,4,5,6) by blast
qed

lemma find_fit_loop_fit_from:
  assumes "\<forall>i<NUM_LIST. free_list s (segregated_list s ! i) (bucket i)"
  shows "\<exists>r. find_fit_loop s asize NULL i = Some r \<and> fit_from s asize bucket i r"
proof (induction "NUM_LIST - i" arbitrary: i)
  case 0
  then have "\<not> i < NUM_LIST" by simp
  then have "find_fit_loop s asize NULL i = Some NULL"
    by (subst find_fit_loop.simps) simp
  moreover have "fit_from s asize bucket i NULL"
    using \<open>\<not> i < NUM_LIST\<close> by (auto simp: fit_from_def)
  ultimately show ?case by blast
next
  case (Suc n)
  then have i: "i < NUM_LIST" and n: "n = NUM_LIST - Suc i" by simp_all
  obtain r where r: "find_fit_scan s asize (segregated_list s ! i) NULL = Some r"
    "(r = NULL) = no_fit s asize (bucket i)"
    "r \<noteq> NULL \<longrightarrow> r \<in> set (bucket i) \<and> asize \<le> bt_size s r \<and>
              (\<forall>b\<in>set (bucket i). asize \<le> bt_size s b \<longrightarrow> bt_size s r \<le> bt_size s b)"
    using bucket_scan[of s "segregated_list s ! i" "bucket i" asize] assms i by blast
  show ?case
  proof (cases "r = NULL")
    case True
    then have step: "find_fit_loop s asize NULL i = find_fit_loop s asize NULL (Suc i)"
      using i r(1) by (subst find_fit_loop.simps) simp
    obtain r' where r': "find_fit_loop s asize NULL (Suc i) = Some r'"
      "fit_from s asize bucket (Suc i) r'"
      using Suc.hyps(1)[OF n] by blast
    have "no_fit s asize (bucket i)" using r(2) True by simp
    then have "fit_from s asize bucket i r'" using r'(2) by (rule fit_from_skip)
    then show ?thesis unfolding step using r'(1) by blast
  next
    case False
    then have step: "find_fit_loop s asize NULL i = Some r"
      using i r(1) by (subst find_fit_loop.simps) simp
    have "\<not> no_fit s asize (bucket i)" using r(2) False by simp
    then have "fit_from s asize bucket i r"
      using fit_from_here[OF i False] r(3) False by blast
    then show ?thesis unfolding step by blast
  qed
qed

text \<open>With every block on the list of its own size class, the buckets below the one of a
  request hold only smaller blocks.\<close>

lemma lower_buckets_smaller:
  assumes "\<forall>i<NUM_LIST. \<forall>b\<in>set (bucket i). get_index (bt_size s b) = i"
    and "asize = 16 \<or> 32 \<le> asize"
    and "i < get_index asize" and "i < NUM_LIST"
  shows "no_fit s asize (bucket i)"
  unfolding no_fit_def
proof
  fix b assume b: "b \<in> set (bucket i)"
  show "bt_size s b < asize"
  proof (rule ccontr)
    assume "\<not> bt_size s b < asize"
    then have "asize \<le> bt_size s b" by simp
    then have "get_index asize \<le> get_index (bt_size s b)"
      using assms(2) by (rule get_index_mono)
    moreover have "get_index (bt_size s b) = i" using assms(1,4) b by blast
    ultimately show False using assms(3) by simp
  qed
qed

text \<open>What the search returns, for a heap whose nine bucket lists are \<open>bucket 0\<close>, \<dots>,
  \<open>bucket 8\<close>.\<close>

lemma find_fit_char:
  assumes "\<forall>i<NUM_LIST. free_list s (segregated_list s ! i) (bucket i)"
  shows "\<exists>r. find_fit s asize = Some r \<and>
     ((r = NULL) =
        (\<forall>j. get_index asize \<le> j \<and> j < NUM_LIST \<longrightarrow>
             (\<forall>b\<in>set (bucket j). bt_size s b < asize))) \<and>
     (r \<noteq> NULL \<longrightarrow>
        (\<exists>j. get_index asize \<le> j \<and> j < NUM_LIST \<and> r \<in> set (bucket j) \<and>
             asize \<le> bt_size s r \<and>
             (\<forall>b\<in>set (bucket j). asize \<le> bt_size s b \<longrightarrow> bt_size s r \<le> bt_size s b) \<and>
             (\<forall>k. get_index asize \<le> k \<and> k < j \<longrightarrow>
                  (\<forall>b\<in>set (bucket k). bt_size s b < asize)))) \<and>
     ((\<forall>i<NUM_LIST. \<forall>b\<in>set (bucket i). get_index (bt_size s b) = i) \<and>
      (asize = 16 \<or> 32 \<le> asize) \<longrightarrow>
        (r = NULL) = (\<forall>i<NUM_LIST. \<forall>b\<in>set (bucket i). bt_size s b < asize))"
proof -
  obtain r where r: "find_fit s asize = Some r" "fit_from s asize bucket (get_index asize) r"
    using find_fit_loop_fit_from[OF assms, of asize "get_index asize"]
    by (auto simp: find_fit_def)
  have a: "(r = NULL) =
        (\<forall>j. get_index asize \<le> j \<and> j < NUM_LIST \<longrightarrow>
             (\<forall>b\<in>set (bucket j). bt_size s b < asize))"
    using r(2) by (simp add: fit_from_def no_fit_def)
  have b: "r \<noteq> NULL \<longrightarrow>
        (\<exists>j. get_index asize \<le> j \<and> j < NUM_LIST \<and> r \<in> set (bucket j) \<and>
             asize \<le> bt_size s r \<and>
             (\<forall>b\<in>set (bucket j). asize \<le> bt_size s b \<longrightarrow> bt_size s r \<le> bt_size s b) \<and>
             (\<forall>k. get_index asize \<le> k \<and> k < j \<longrightarrow>
                  (\<forall>b\<in>set (bucket k). bt_size s b < asize)))"
    using r(2) by (simp add: fit_from_def no_fit_def)
  have c: "(r = NULL) = (\<forall>i<NUM_LIST. \<forall>b\<in>set (bucket i). bt_size s b < asize)"
    if i6: "\<forall>i<NUM_LIST. \<forall>b\<in>set (bucket i). get_index (bt_size s b) = i"
      and ok: "asize = 16 \<or> 32 \<le> asize"
  proof
    assume "r = NULL"
    then have up: "\<forall>j. get_index asize \<le> j \<and> j < NUM_LIST \<longrightarrow>
                     (\<forall>b\<in>set (bucket j). bt_size s b < asize)"
      using a by simp
    show "\<forall>i<NUM_LIST. \<forall>b\<in>set (bucket i). bt_size s b < asize"
    proof (intro allI impI)
      fix i assume i: "i < NUM_LIST"
      show "\<forall>b\<in>set (bucket i). bt_size s b < asize"
      proof (cases "i < get_index asize")
        case True
        then show ?thesis
          using lower_buckets_smaller[OF i6 ok True i] by (simp add: no_fit_def)
      next
        case False
        then have "get_index asize \<le> i" by simp
        then show ?thesis using up i by blast
      qed
    qed
  next
    assume "\<forall>i<NUM_LIST. \<forall>b\<in>set (bucket i). bt_size s b < asize"
    then have "\<forall>j. get_index asize \<le> j \<and> j < NUM_LIST \<longrightarrow>
                 (\<forall>b\<in>set (bucket j). bt_size s b < asize)"
      by blast
    then show "r = NULL" using a by blast
  qed
  have c': "(\<forall>i<NUM_LIST. \<forall>b\<in>set (bucket i). get_index (bt_size s b) = i) \<and>
      (asize = 16 \<or> 32 \<le> asize) \<longrightarrow>
        (r = NULL) = (\<forall>i<NUM_LIST. \<forall>b\<in>set (bucket i). bt_size s b < asize)"
    using c by (intro impI) (elim conjE)
  show ?thesis
    by (rule exI[of _ r]) (intro conjI r(1) a b c')
qed

text \<open>On such a heap, a miss for a block size leaves the last block, when it is free, smaller
  than the request: the subtraction in the miss path of \<^verbatim>\<open>malloc\<close> does not underflow.\<close>

lemma miss_no_underflow:
  assumes "\<forall>i<NUM_LIST. free_list s (segregated_list s ! i) (bucket i)"
    and "\<forall>i<NUM_LIST. \<forall>b\<in>set (bucket i). get_index (bt_size s b) = i"
    and "asize = 16 \<or> 32 \<le> asize"
    and "find_fit s asize = Some NULL"
    and "i < NUM_LIST" and "last_blk s \<in> set (bucket i)"
  shows "bt_size s (last_blk s) < asize"
    and "0 < asize - bt_size s (last_blk s)"
    and "unat (asize - bt_size s (last_blk s)) = unat asize - unat (bt_size s (last_blk s))"
proof -
  obtain r where r: "find_fit s asize = Some r"
    and c: "(\<forall>i<NUM_LIST. \<forall>b\<in>set (bucket i). get_index (bt_size s b) = i) \<and>
      (asize = 16 \<or> 32 \<le> asize) \<longrightarrow>
        (r = NULL) = (\<forall>i<NUM_LIST. \<forall>b\<in>set (bucket i). bt_size s b < asize)"
    using find_fit_char[OF assms(1), of asize] by (elim exE conjE) 
  have "r = NULL" using r assms(4) by simp
  moreover have "(r = NULL) = (\<forall>i<NUM_LIST. \<forall>b\<in>set (bucket i). bt_size s b < asize)"
    using c assms(2,3) by (elim impE) (intro conjI)
  ultimately have "\<forall>i<NUM_LIST. \<forall>b\<in>set (bucket i). bt_size s b < asize" by simp
  then show lt: "bt_size s (last_blk s) < asize" using assms(5,6) by blast
  then have ne: "asize - bt_size s (last_blk s) \<noteq> 0" by simp
  then show "0 < asize - bt_size s (last_blk s)"
    by (simp only: word_neq_0_conv)
  have "bt_size s (last_blk s) \<le> asize" using lt by (rule less_imp_le)
  then show "unat (asize - bt_size s (last_blk s)) = unat asize - unat (bt_size s (last_blk s))"
    by (rule unat_sub)
qed

subsection \<open>Reallocation\<close>

lemma round_up_bit1: "round_up x AND 2 = 0"
proof -
  have "round_up x AND 2 = (round_up x AND 3) AND 2"
    by (simp add: and.assoc)
  then show ?thesis by (simp add: round_up_low_bits)
qed

lemma used_header_prevfree:
  fixes a :: size_t
  assumes "a AND 2 = 0"
  shows "(ucast (a OR 1) :: word_t) AND 2 = 0" and "(ucast (a OR 1) :: word_t) AND NOT 2 AND 2 = 0"
proof -
  have b: "\<not> bit a 1"
  proof
    assume "bit a 1"
    then have "bit (a AND 2) 1" by (simp add: bit_simps)
    then show False using assms by simp
  qed
  have m: "(2 :: word_t) = push_bit 1 1" by simp
  show "(ucast (a OR 1) :: word_t) AND 2 = 0"
    unfolding m using b by (intro bit_word_eqI) (auto simp: bit_simps)
  show "(ucast (a OR 1) :: word_t) AND NOT 2 AND 2 = 0"
    by (intro bit_word_eqI) (auto simp: bit_simps)
qed

lemma bt_make_used_prevfree:
  assumes "a AND 2 = 0"
  shows "bt_get_prevfree (bt_make s b a USED) b = 0"
proof -
  have u: "(ucast (a OR 1) :: word_t) AND 1 \<noteq> 0"
  proof -
    have "(ucast (a OR 1) :: word_t) AND 1 = 1"
      by (rule bit_word_eqI) (auto simp: bit_simps)
    then show ?thesis by simp
  qed
  have c: "(x AND - 3) AND 2 = 0" for x :: word_t
  proof -
    have "(- 3 :: word_t) AND 2 = 0" by simp
    then show ?thesis by (simp add: and.assoc)
  qed
  show ?thesis
    using used_header_prevfree(1)[OF assms] u c
    by (auto simp: bt_make_def Let_def PUT_def PACK_def USED_def PREVFREE_def bt_used_def
        bt_next_def bt_get_prevfree_def bt_clr_prevfree_def NULL_def)
qed

text \<open>Whenever \<^verbatim>\<open>realloc\<close> grows a block by extending the heap, the block's header has
  \<^verbatim>\<open>PREVFREE\<close> clear afterwards, whatever its predecessor is.\<close>

lemma realloc_extend_clears_prevfree:
  fixes s :: state and p :: ptr and sz asize avail :: size_t and nxt :: ptr
  assumes "p \<noteq> NULL" and "sz \<noteq> 0"
    and "asize = round_up (sz + WSIZE)"
    and "nxt = bt_next s (bt_header p)"
    and "avail = (if bt_free s nxt then bt_size s (bt_header p) + bt_size s nxt
                  else bt_size s (bt_header p))"
    and "avail < asize"
    and "bt_header p = last_blk s \<or> (nxt = last_blk s \<and> bt_free s nxt)"
    and "extend_heap s (asize - avail) = (new_block, s1)" and "new_block \<noteq> NULL"
  shows "\<exists>s'. realloc s p sz = Some (p, s') \<and> bt_get_prevfree s' (bt_header p) = 0"
proof -
  have r: "realloc s p sz =
      Some (p, (bt_make s1 (bt_header p) asize USED)\<lparr>last_blk := bt_header p\<rparr>)"
    using assms by (auto simp: realloc_def Let_def)
  have "bt_get_prevfree (bt_make s1 (bt_header p) asize USED) (bt_header p) = 0"
    unfolding assms(3) by (rule bt_make_used_prevfree[OF round_up_bit1])
  then show ?thesis unfolding r by (simp add: bt_get_prevfree_def)
qed

text \<open>The length \<^verbatim>\<open>realloc\<close> passes to \<^verbatim>\<open>memcpy\<close> when it moves a block.\<close>

lemma realloc_move_length:
  fixes s :: state and p :: ptr and sz asize avail :: size_t and nxt :: ptr
  assumes "p \<noteq> NULL" and "sz \<noteq> 0"
    and "asize = round_up (sz + WSIZE)"
    and "nxt = bt_next s (bt_header p)"
    and "avail = (if bt_free s nxt then bt_size s (bt_header p) + bt_size s nxt
                  else bt_size s (bt_header p))"
    and "avail < asize"
    and "\<not> (bt_header p = last_blk s \<or> (nxt = last_blk s \<and> bt_free s nxt))"
    and "malloc s sz = Some (new_ptr, s1)" and "new_ptr \<noteq> NULL"
  shows "realloc s p sz = Some (new_ptr, free (memcpy s1 new_ptr p (avail - WSIZE)) p)"
  using assms by (auto simp: realloc_def Let_def)

subsection \<open>Alignment\<close>

text \<open>After \<^verbatim>\<open>mm_init\<close> on a provider whose base is 16-byte aligned the first header sits
  at 12 modulo 16, and on a heap whose end, last block and listed free blocks sit at 12 modulo
  16 one call of \<^verbatim>\<open>malloc\<close> returns a payload at 0 modulo 16.\<close>

lemma payload_aligned: "header_aligned b \<Longrightarrow> unat (bt_payload b) mod 16 = 0"
proof -
  assume a: "header_aligned b"
  have "unat (b + 4) = (unat b + 4) mod 2 ^ 64"
    by (simp add: unat_word_ariths)
  then have "unat (b + 4) mod 16 = (unat b + 4) mod 2 ^ 64 mod 16" by simp
  also have "\<dots> = (unat b + 4) mod 16"
    by (rule mod_mod_cancel) simp
  also have "\<dots> = 0" using a unfolding header_aligned_def by presburger
  finally show ?thesis by (simp add: bt_payload_def)
qed

lemma malloc_aligned:
  assumes lists: "\<forall>i<NUM_LIST. free_list s (segregated_list s ! i) (bucket i)"
    and al: "\<forall>i<NUM_LIST. \<forall>b\<in>set (bucket i). header_aligned b"
    and he: "header_aligned (heap_end s)"
    and la: "last_blk s \<noteq> NULL \<longrightarrow> header_aligned (last_blk s)"
    and m: "malloc s sz = Some (p, s')" and p: "p \<noteq> NULL"
  shows "unat p mod 16 = 0"
proof -
  have z: "sz \<noteq> 0" using m p by (auto simp: malloc_def)
  let ?asize = "round_up (sz + WSIZE)"
  obtain r where r: "find_fit s ?asize = Some r"
    and mem: "r \<noteq> NULL \<longrightarrow>
        (\<exists>j. get_index ?asize \<le> j \<and> j < NUM_LIST \<and> r \<in> set (bucket j) \<and>
             ?asize \<le> bt_size s r \<and>
             (\<forall>b\<in>set (bucket j). ?asize \<le> bt_size s b \<longrightarrow> bt_size s r \<le> bt_size s b) \<and>
             (\<forall>k. get_index ?asize \<le> k \<and> k < j \<longrightarrow>
                  (\<forall>b\<in>set (bucket k). bt_size s b < ?asize)))"
    using find_fit_char[OF lists, of ?asize] by (elim exE conjE)
  show ?thesis
  proof (cases "r = NULL")
    case False
    then obtain j where "j < NUM_LIST" "r \<in> set (bucket j)" using mem by blast
    then have "header_aligned r" using al by blast
    moreover have "p = bt_payload r" using m z r False by (simp add: malloc_def Let_def)
    ultimately show ?thesis using payload_aligned by simp
  next
    case True
    let ?ext = "if last_blk s \<noteq> NULL \<and> bt_free s (last_blk s)
                then ?asize - bt_size s (last_blk s) else ?asize"
    obtain nb s1 where e: "extend_heap s ?ext = (nb, s1)" by (cases "extend_heap s ?ext")
    have pe: "p = bt_payload nb" and nn: "nb \<noteq> NULL"
      using m z r True e p by (auto simp: malloc_def Let_def split: if_splits)
    have "nb = heap_end s \<or> (last_blk s \<noteq> NULL \<and> nb = last_blk s)"
      using e nn by (auto simp: extend_heap_def Let_def mem_sbrk_def split: option.splits if_splits)
    then have "header_aligned nb" using he la by auto
    then show ?thesis using payload_aligned pe by simp
  qed
qed

lemma mm_init_aligned:
  assumes "unat (mem_brk s) mod 16 = 0" and "mm_init s = (0, s')"
  shows "header_aligned (heap_start s')" and "heap_end s' = heap_start s'"
    and "last_blk s' = NULL" and "segregated_list s' = replicate NUM_LIST NULL"
proof -
  obtain s1 where s1: "mem_sbrk s (8 * of_nat NUM_LIST) = Some (mem_brk s, s1)"
    using assms(2) by (auto simp: mm_init_def mem_sbrk_def split: if_splits)
  then have b1: "unat (mem_brk s) + 72 \<le> unat (mem_max_addr s)"
    and s1e: "s1 = s\<lparr>mem_brk := mem_brk s + 72\<rparr>"
    by (auto simp: mem_sbrk_def NUM_LIST_def split: if_splits)
  let ?s2 = "s1\<lparr>segregated_list := replicate NUM_LIST NULL\<rparr>"
  obtain s3 where s3: "mem_sbrk ?s2 (2 * ALIGNMENT) = Some (mem_brk s + 72, s3)"
    using assms(2) s1 s1e by (auto simp: mm_init_def Let_def mem_sbrk_def split: if_splits)
  then have b2: "unat (mem_brk s + 72) + 32 \<le> unat (mem_max_addr s)"
    by (auto simp: mem_sbrk_def s1e ALIGNMENT_def split: if_splits)
  have hs: "heap_start s' = mem_brk s + 72 + 20" and "heap_end s' = heap_start s'"
    and "last_blk s' = NULL" and "segregated_list s' = replicate NUM_LIST NULL"
    using assms(2) s1 s3
    by (auto simp: mm_init_def Let_def PUT_def mem_sbrk_def bt_make_def bt_clr_prevfree_def
        bt_set_prevfree_def split: if_splits)
  then show "heap_end s' = heap_start s'" "last_blk s' = NULL"
    "segregated_list s' = replicate NUM_LIST NULL" by simp_all
  have lim: "unat (mem_max_addr s) < 2 ^ 64"
    using unsigned_less[of "mem_max_addr s", where ?'a = nat] by simp
  have u1: "unat (mem_brk s + 72) = unat (mem_brk s) + 72"
    using b1 lim by (simp add: unat_word_ariths)
  have "unat (mem_brk s + 72 + 20) = unat (mem_brk s) + 92"
    using b2 u1 lim by (simp add: unat_word_ariths)
  then show "header_aligned (heap_start s')"
    using assms(1) unfolding header_aligned_def hs by presburger
qed

section \<open>The concrete runs\<close>

lemma replicate_9: "replicate 9 x = [x, x, x, x, x, x, x, x, x]"
  by (simp add: numeral_eq_Suc)

lemmas run_defs = mm_init_def mem_sbrk_def NUM_LIST_def ALIGNMENT_def PUT_def PACK_def USED_def
  FREE_def PREVFREE_def NULL_def WSIZE_def bt_make_def bt_used_def bt_next_def bt_prev_def
  bt_size_def bt_clr_prevfree_def bt_set_prevfree_def bt_footer_def bt_free_def
  bt_get_prevfree_def bt_header_def bt_payload_def round_up_def get_free_next_def
  get_free_prev_def set_free_next_def set_free_prev_def free_list_append_def
  free_list_delete_def get_index_def extend_heap_def find_fit_def find_fit_loop.simps
  find_fit_scan.simps place_def malloc_def coalesce_def free_def memcpy_def realloc_def
  Let_def replicate_9 word_sless_alt

lemmas walk_defs = heap_blocks_def checkheap_walk.simps bt_next_def bt_size_def bt_free_def
  bt_get_prevfree_def USED_def PREVFREE_def NULL_def Let_def

lemma run_heap0: "mm_init fresh = (0, heap0)"
  by (simp add: fresh_def heap0_def run_defs)

lemma run_heapA1: "malloc heap0 24 = Some (4192, heapA1)"
  by (simp add: heap0_def heapA1_def run_defs)

lemma run_heapA2: "malloc heapA1 24 = Some (4224, heapA2)"
  by (simp add: heapA1_def heapA2_def run_defs)

lemma run_heapA3: "free heapA2 4192 = heapA3"
  by (simp add: heapA2_def heapA3_def run_defs)

lemma run_heapA4: "realloc heapA3 4224 100 = Some (4224, heapA4)"
  by (simp add: heapA3_def heapA4_def run_defs)

lemma run_heapA5: "free heapA4 4224 = heapA5"
  by (simp add: heapA4_def heapA5_def run_defs)

lemma run_heapB3: "malloc heapA2 24 = Some (4256, heapB3)"
  by (simp add: heapA2_def heapB3_def run_defs)

lemma run_heapB4: "free heapB3 4224 = heapB4"
  by (simp add: heapB3_def heapB4_def run_defs)

lemma run_heapB5: "malloc heapB4 100 = Some (4288, heapB5)"
  by (simp add: heapB4_def heapB5_def run_defs)

lemma run_heapC1: "malloc heap0 1 = Some (4192, heapC1)"
  by (simp add: heap0_def heapC1_def run_defs)

lemma run_heapC2: "free heapC1 4192 = heapC2"
  by (simp add: heapC1_def heapC2_def run_defs)

lemma run_heapD1: "malloc heap0 100 = Some (4192, heapD1)"
  by (simp add: heap0_def heapD1_def run_defs)

lemma run_heapD2: "free heapD1 4192 = heapD2"
  by (simp add: heapD1_def heapD2_def run_defs)

lemma run_heapD3: "user_store (user_store (user_store (user_store heapD2 4192 3) 4200 64) 4204 (- 1)) 4208 0 = heapD3"
  by (simp add: heapD2_def heapD3_def user_store_def)

lemma run_heapD4: "malloc heapD3 50 = Some (4204, heapD4)"
  by (simp add: heapD3_def heapD4_def run_defs)

lemma run_heapE3: "free heapA2 4224 = heapE3"
  by (simp add: heapA2_def heapE3_def run_defs)

lemma run_heapE4: "malloc heapE3 100 = Some (4224, heapE4)"
  by (simp add: heapE3_def heapE4_def run_defs)

section \<open>The claims\<close>

subsection \<open>C9: the size-class index\<close>

text \<open>
  Claim C9 says that \<^verbatim>\<open>get_index\<close> is monotonic non-decreasing over all pairs of sizes and
  agrees with the size-class table. As stated it fails: a size below 16, or strictly between 16
  and 32, falls through to bucket 2, above the buckets of 16 and 32.
\<close>

theorem get_index_not_monotone: "(8 :: size_t) \<le> 16 \<and> \<not> get_index 8 \<le> get_index 16"
  by (simp add: get_index_def)

text \<open>
  Claim C9, amended: \<^verbatim>\<open>get_index\<close> is monotonic non-decreasing on the sizes a block can
  have, that is \<open>get_index s1 \<le> get_index s2\<close> whenever \<open>s1 \<le> s2\<close> and \<open>s1\<close> is 16 or at
  least 32 (every multiple of 16 from 16 on is such a size); and on every size that the table
  of section 3 classifies it returns the index of the table.
\<close>

theorem get_index_classes:
  "(s1 \<le> s2 \<and> (s1 = 16 \<or> 32 \<le> s1) \<longrightarrow> get_index s1 \<le> get_index s2) \<and>
   (\<forall>i. size_class sz = Some i \<longrightarrow> get_index sz = i)"
  using get_index_mono[of s1 s2] get_index_table[of sz] by blast

theorem get_index_classes_witness:
  "(48 :: size_t) \<le> 80 \<and> (32 :: size_t) \<le> 48 \<and> get_index 48 \<le> get_index 80 \<and>
   size_class 48 = Some 2 \<and> get_index 48 = 2"
  using get_index_classes[of 48 80 48] by (simp add: size_class_def)

subsection \<open>C7: the physical successor\<close>

text \<open>
  Claim C7 says that the physical-next lookup yields none whenever \<open>h + size\<close> meets or exceeds
  \<open>heap_end\<close>. The comparison in \<^verbatim>\<open>bt_next\<close> is \<^verbatim>\<open>next <= heap_end\<close>: for the block that
  ends at \<open>heap_end\<close> the lookup returns \<open>heap_end\<close>, the address of the epilogue header, which
  \<^verbatim>\<open>free\<close>, \<^verbatim>\<open>realloc\<close> and \<^verbatim>\<open>bt_make\<close> then read and write. In \<open>heapA1\<close> the only block
  (at 4188, 32 bytes) ends at \<open>heap_end = 4220\<close>.
\<close>

theorem bt_next_at_heap_end:
  "4188 + bt_size heapA1 4188 = heap_end heapA1 \<and> bt_next heapA1 4188 = heap_end heapA1 \<and>
   bt_next heapA1 4188 \<noteq> NULL"
  by (simp add: heapA1_def bt_next_def bt_size_def USED_def PREVFREE_def NULL_def)

text \<open>
  Claim C7, amended: \<open>next(h)\<close> is \<open>h + size\<close> whenever that address is at most \<open>heap_end\<close>
  (so the block whose end coincides with \<open>heap_end\<close> gets \<open>heap_end\<close>, the epilogue), and
  none only when \<open>h + size\<close> exceeds \<open>heap_end\<close>.
\<close>

theorem bt_next_cases:
  "(block_ptr + bt_size s block_ptr \<le> heap_end s \<longrightarrow>
      bt_next s block_ptr = block_ptr + bt_size s block_ptr) \<and>
   (heap_end s < block_ptr + bt_size s block_ptr \<longrightarrow> bt_next s block_ptr = NULL)"
  by (auto simp: bt_next_def Let_def)

theorem bt_next_cases_witness:
  "4188 + bt_size heapA1 4188 \<le> heap_end heapA1 \<and> bt_next heapA1 4188 = 4220 \<and>
   heap_end heapA1_mid < 4188 + bt_size heapA1_mid 4188 \<and> bt_next heapA1_mid 4188 = NULL"
  using bt_next_cases[of 4188 heapA1] bt_next_cases[of 4188 heapA1_mid]
  by (simp add: heapA1_mid_def heapA1_def bt_size_def USED_def PREVFREE_def)

subsection \<open>C4 and C3: the PREVFREE flag and adjacent free blocks\<close>

text \<open>
  Claim C4: invariant I3 (a block has \<^verbatim>\<open>PREVFREE\<close> set iff its physical predecessor is
  free) is preserved by every public operation. The code breaks it. Run:
  \<^verbatim>\<open>mm_init(); a = malloc(24); b = malloc(24); free(a); realloc(b, 100)\<close>.
  After \<^verbatim>\<open>free(a)\<close> the heap \<open>heapA3\<close> satisfies I3: \<open>b\<close>'s header (at 4220) carries
  \<^verbatim>\<open>PREVFREE\<close>. \<open>b\<close> is the last block, so \<^verbatim>\<open>realloc\<close> extends the heap and rewrites the
  header with \<^verbatim>\<open>bt_make(block_ptr, asize, USED)\<close>: the flag is lost although \<open>a\<close> is still
  free. (The in-place branches of \<^verbatim>\<open>realloc\<close> and \<^verbatim>\<open>place\<close> pass
  \<^verbatim>\<open>USED | bt_get_prevfree(block_ptr)\<close>; lemma \<open>realloc_extend_clears_prevfree\<close> shows
  that the extending branch clears the flag on every heap.)
\<close>

theorem realloc_extend_drops_prevfree:
  "mm_init fresh = (0, heap0) \<and> malloc heap0 24 = Some (4192, heapA1) \<and>
   malloc heapA1 24 = Some (4224, heapA2) \<and> free heapA2 4192 = heapA3 \<and>
   prevfree_consistent heapA3 \<and> bt_get_prevfree heapA3 (bt_header 4224) = PREVFREE \<and>
   realloc heapA3 4224 100 = Some (4224, heapA4) \<and>
   heap_blocks heapA4 = Some [4188, 4220] \<and> bt_free heapA4 4188 \<and>
   bt_get_prevfree heapA4 (bt_header 4224) = 0 \<and> \<not> prevfree_consistent heapA4"
proof -
  have "prevfree_consistent heapA3" "bt_get_prevfree heapA3 (bt_header 4224) = PREVFREE"
    by (simp_all add: heapA3_def prevfree_consistent_def walk_defs bt_header_def)
  moreover have "heap_blocks heapA4 = Some [4188, 4220]" "bt_free heapA4 4188"
    "bt_get_prevfree heapA4 (bt_header 4224) = 0" "\<not> prevfree_consistent heapA4"
    by (simp_all add: heapA4_def prevfree_consistent_def walk_defs bt_header_def)
  ultimately show ?thesis
    using run_heap0 run_heapA1 run_heapA2 run_heapA3 run_heapA4 by simp
qed

text \<open>
  Claim C3: invariant I4 (no two physically adjacent blocks are both free) is preserved by every
  public operation. The same run, continued by \<^verbatim>\<open>free(b)\<close>, breaks it: \<open>b\<close>'s header no
  longer says that \<open>a\<close> is free, so \<^verbatim>\<open>free\<close> does not coalesce, and the heap \<open>heapA5\<close>
  holds the free block \<open>a\<close> (32 bytes at 4188) directly followed by the free block \<open>b\<close> (112
  bytes at 4220).
\<close>

theorem free_leaves_adjacent_free:
  "mm_init fresh = (0, heap0) \<and> malloc heap0 24 = Some (4192, heapA1) \<and>
   malloc heapA1 24 = Some (4224, heapA2) \<and> free heapA2 4192 = heapA3 \<and>
   realloc heapA3 4224 100 = Some (4224, heapA4) \<and> no_adjacent_free heapA4 \<and>
   free heapA4 4224 = heapA5 \<and> heap_blocks heapA5 = Some [4188, 4220] \<and>
   bt_free heapA5 4188 \<and> 4188 + bt_size heapA5 4188 = 4220 \<and> bt_free heapA5 4220 \<and>
   \<not> no_adjacent_free heapA5"
proof -
  have "no_adjacent_free heapA4"
    by (simp add: heapA4_def no_adjacent_free_def walk_defs)
  moreover have "heap_blocks heapA5 = Some [4188, 4220]" "bt_free heapA5 4188"
    "4188 + bt_size heapA5 4188 = 4220" "bt_free heapA5 4220" "\<not> no_adjacent_free heapA5"
    by (simp_all add: heapA5_def no_adjacent_free_def walk_defs)
  ultimately show ?thesis
    using run_heap0 run_heapA1 run_heapA2 run_heapA3 run_heapA4 run_heapA5 by simp
qed

subsection \<open>C6: reallocation when the provider fails\<close>

text \<open>
  Claim C6: for \<^verbatim>\<open>realloc(p, n)\<close> with non-null \<open>p\<close> and \<open>n > 0\<close>, if the sbrk provider
  fails, \<^verbatim>\<open>realloc\<close> returns null and the state is exactly as before the call.

  \<^verbatim>\<open>realloc\<close> reaches the provider in two ways, both only when the block cannot grow in place
  (\<open>avail < asize\<close>): through \<^verbatim>\<open>extend_heap(asize - avail)\<close> when the block, or its free
  successor, is the last one; and otherwise through \<^verbatim>\<open>malloc\<close>, when no free block fits.
  In both, a failing provider call makes \<^verbatim>\<open>realloc\<close> return \<^verbatim>\<open>NULL\<close> with the state
  \<open>s\<close> it started from.
\<close>

theorem realloc_oom_intact:
  fixes s :: state and p :: ptr and sz asize avail :: size_t and nxt :: ptr and at_end :: bool
  assumes "p \<noteq> NULL" and "sz \<noteq> 0"
    and "asize = round_up (sz + WSIZE)"
    and "nxt = bt_next s (bt_header p)"
    and "avail = (if bt_free s nxt then bt_size s (bt_header p) + bt_size s nxt
                  else bt_size s (bt_header p))"
    and "at_end = (bt_header p = last_blk s \<or> (nxt = last_blk s \<and> bt_free s nxt))"
    and "avail < asize"
  shows "(at_end \<and> mem_sbrk s (asize - avail) = None \<longrightarrow> realloc s p sz = Some (NULL, s)) \<and>
         (\<not> at_end \<and> find_fit s asize = Some NULL \<and>
          mem_sbrk s (if last_blk s \<noteq> NULL \<and> bt_free s (last_blk s)
                      then asize - bt_size s (last_blk s) else asize) = None \<longrightarrow>
            realloc s p sz = Some (NULL, s))"
  using assms by (auto simp: realloc_def Let_def extend_heap_fail malloc_fail)

text \<open>Witness: in \<open>heapA2\<close> with the provider exhausted, \<^verbatim>\<open>realloc(b, 100)\<close> (the last block)
  and \<^verbatim>\<open>realloc(a, 100)\<close> (not the last, nothing free) both return \<^verbatim>\<open>NULL\<close> and leave the
  heap as it was.\<close>

theorem realloc_oom_intact_witness:
  "bt_header 4224 = last_blk heapA2_full \<and> mem_sbrk heapA2_full (112 - 32) = None \<and>
   realloc heapA2_full 4224 100 = Some (NULL, heapA2_full) \<and>
   bt_header 4192 \<noteq> last_blk heapA2_full \<and> find_fit heapA2_full 112 = Some NULL \<and>
   mem_sbrk heapA2_full 112 = None \<and>
   realloc heapA2_full 4192 100 = Some (NULL, heapA2_full)"
proof -
  have n: "(4224 :: ptr) \<noteq> NULL" "(4192 :: ptr) \<noteq> NULL" "(100 :: size_t) \<noteq> 0"
    by (simp_all add: NULL_def)
  have v: "round_up (100 + WSIZE) = 112"
    "bt_next heapA2_full (bt_header 4224) = 4252" "bt_next heapA2_full (bt_header 4192) = 4220"
    "bt_size heapA2_full (bt_header 4224) = 32" "bt_size heapA2_full (bt_header 4192) = 32"
    "\<not> bt_free heapA2_full 4252" "\<not> bt_free heapA2_full 4220"
    "last_blk heapA2_full = 4220" "bt_header 4224 = 4220" "bt_header 4192 = 4188"
    by (simp_all add: heapA2_full_def heapA2_def run_defs)
  have f: "find_fit heapA2_full 112 = Some NULL"
    "mem_sbrk heapA2_full 80 = None" "mem_sbrk heapA2_full 112 = None"
    by (simp_all add: heapA2_full_def heapA2_def run_defs)
  have b: "realloc heapA2_full 4224 100 = Some (NULL, heapA2_full)"
    using realloc_oom_intact[OF n(1) n(3) refl refl refl refl, of heapA2_full] v f by simp
  have a: "realloc heapA2_full 4192 100 = Some (NULL, heapA2_full)"
    using realloc_oom_intact[OF n(2) n(3) refl refl refl refl, of heapA2_full] v f by simp
  show ?thesis using a b v f by simp
qed

subsection \<open>C8: extending over a free last block\<close>




subsection \<open>C2: the fit search\<close>

text \<open>
  Claim C2 says that \<^verbatim>\<open>find_fit(asize)\<close> starts at bucket \<open>get_index(asize)\<close>, scans each
  whole bucket list for the smallest block of size at least \<open>asize\<close>, returns that block from
  the first bucket (in increasing order) that holds one, and returns none iff no bucket holds a
  free block of size at least \<open>asize\<close>. The last part fails: the search never looks at the
  buckets below \<open>get_index(asize)\<close>, and an \<open>asize\<close> that is not the size of a block (below
  16, or between 16 and 32) starts at bucket 2. \<^verbatim>\<open>malloc\<close> does call it so: a request of
  \<open>2^64 - 4\<close> bytes has the adjusted size 0. In \<open>heapC2\<close>, reached by
  \<^verbatim>\<open>mm_init(); p = malloc(1); free(p)\<close>, every bucket list is a finite chain and every
  block is on the list of its size class; the free 16-byte block at 4188 is on bucket 0 and is
  not smaller than 0, yet \<^verbatim>\<open>find_fit(0)\<close> returns none.
\<close>

theorem find_fit_skips_lower_buckets:
  "mm_init fresh = (0, heap0) \<and> malloc heap0 1 = Some (4192, heapC1) \<and>
   free heapC1 4192 = heapC2 \<and>
   list_all (\<lambda>i. free_list heapC2 (segregated_list heapC2 ! i) (bucketC2 i))
     [0, 1, 2, 3, 4, 5, 6, 7, 8] \<and>
   list_all (\<lambda>i. list_all (\<lambda>b. get_index (bt_size heapC2 b) = i) (bucketC2 i))
     [0, 1, 2, 3, 4, 5, 6, 7, 8] \<and>
   bucketC2 0 = [4188] \<and> bt_free heapC2 4188 \<and> bt_size heapC2 4188 = 16 \<and>
   (0 :: size_t) \<le> 16 \<and> get_index 0 = 2 \<and> find_fit heapC2 0 = Some NULL"
proof -
  have a: "list_all (\<lambda>i. free_list heapC2 (segregated_list heapC2 ! i) (bucketC2 i))
     [0, 1, 2, 3, 4, 5, 6, 7, 8]"
    by (simp add: heapC2_def bucketC2_def get_free_next_def NULL_def Let_def word_sless_alt)
  have b: "list_all (\<lambda>i. list_all (\<lambda>b. get_index (bt_size heapC2 b) = i) (bucketC2 i))
     [0, 1, 2, 3, 4, 5, 6, 7, 8]"
    by (simp add: heapC2_def bucketC2_def bt_size_def get_index_def USED_def PREVFREE_def)
  have c: "bucketC2 0 = [4188]" "bt_free heapC2 4188" "bt_size heapC2 4188 = 16"
    "get_index 0 = 2" "find_fit heapC2 0 = Some NULL"
    by (simp_all add: heapC2_def bucketC2_def run_defs)
  have d: "(0 :: size_t) \<le> 16" by simp
  show ?thesis
    by (intro conjI run_heap0 run_heapC1 run_heapC2 a b c d)
qed

text \<open>
  Claim C2, amended: provided each of the nine bucket lists is a finite chain ending in
  \<^verbatim>\<open>NULL\<close>, \<^verbatim>\<open>find_fit(asize)\<close> returns; it starts at bucket \<open>get_index(asize)\<close>, scans
  each whole bucket list for the smallest listed block of size at least \<open>asize\<close>, returns that
  block from the first bucket at or above \<open>get_index(asize)\<close> (in increasing order) that holds
  one, and returns none iff no bucket at or above \<open>get_index(asize)\<close> holds a block of size at
  least \<open>asize\<close>; and if moreover every listed block is on the list of its own size class
  (invariant I6) and \<open>asize\<close> is 16 or at least 32, it returns none iff no bucket at all holds
  a block of size at least \<open>asize\<close>.

  In the theorem \<open>bucket i\<close> is the list of the blocks on the free list of bucket \<open>i\<close>, and
  the hypothesis says that following the links from the head of bucket \<open>i\<close> visits exactly
  these blocks and then reaches \<^verbatim>\<open>NULL\<close>. On a list that runs into a cycle the scan does
  not end. The result \<open>r\<close> is \<^verbatim>\<open>NULL\<close> exactly when no bucket from \<open>get_index asize\<close> on
  holds a fitting block; otherwise \<open>r\<close> lies in a bucket \<open>j\<close> at or above
  \<open>get_index asize\<close>, fits, is no larger than any fitting block of bucket \<open>j\<close>, and no bucket
  between \<open>get_index asize\<close> and \<open>j\<close> holds a fitting block.
\<close>

theorem find_fit_best_fit:
  assumes "\<forall>i<NUM_LIST. free_list s (segregated_list s ! i) (bucket i)"
  shows "\<exists>r. find_fit s asize = Some r \<and>
     ((r = NULL) =
        (\<forall>j. get_index asize \<le> j \<and> j < NUM_LIST \<longrightarrow>
             (\<forall>b\<in>set (bucket j). bt_size s b < asize))) \<and>
     (r \<noteq> NULL \<longrightarrow>
        (\<exists>j. get_index asize \<le> j \<and> j < NUM_LIST \<and> r \<in> set (bucket j) \<and>
             asize \<le> bt_size s r \<and>
             (\<forall>b\<in>set (bucket j). asize \<le> bt_size s b \<longrightarrow> bt_size s r \<le> bt_size s b) \<and>
             (\<forall>k. get_index asize \<le> k \<and> k < j \<longrightarrow>
                  (\<forall>b\<in>set (bucket k). bt_size s b < asize)))) \<and>
     ((\<forall>i<NUM_LIST. \<forall>b\<in>set (bucket i). get_index (bt_size s b) = i) \<and>
      (asize = 16 \<or> 32 \<le> asize) \<longrightarrow>
        (r = NULL) = (\<forall>i<NUM_LIST. \<forall>b\<in>set (bucket i). bt_size s b < asize))"
  using assms by (rule find_fit_char)

lemma all_below_9: "(\<forall>i<NUM_LIST. P i) = list_all P [0, 1, 2, 3, 4, 5, 6, 7, 8]"
proof -
  have "{..<NUM_LIST} = set [0, 1, 2, 3, 4, 5, 6, 7, 8]"
    unfolding NUM_LIST_def by auto
  then have "(\<forall>i<NUM_LIST. P i) = (\<forall>i\<in>set [0, 1, 2, 3, 4, 5, 6, 7, 8]. P i)"
    by (metis lessThan_iff)
  then show ?thesis by (simp only: list_all_iff)
qed

text \<open>Witness. In \<open>heapS4\<close> (scenario S4: blocks of 64, 48 and 80 bytes on the list of bucket
  2) a request of 48 bytes selects the 48-byte block at 4268, not the 64-byte block at the head
  of the list. In \<open>heapA5\<close>, where every block is on the list of its class, a request of 128
  bytes finds nothing, and every free block is smaller.\<close>

theorem find_fit_best_fit_witness:
  "list_all (\<lambda>i. free_list heapS4 (segregated_list heapS4 ! i) (bucketS4 i))
     [0, 1, 2, 3, 4, 5, 6, 7, 8] \<and>
   map (bt_size heapS4) (bucketS4 2) = [64, 48, 80] \<and> get_index 48 = 2 \<and>
   find_fit heapS4 48 = Some 4268 \<and>
   list_all (\<lambda>i. free_list heapA5 (segregated_list heapA5 ! i) (bucketA5 i))
     [0, 1, 2, 3, 4, 5, 6, 7, 8] \<and>
   list_all (\<lambda>i. list_all (\<lambda>b. get_index (bt_size heapA5 b) = i) (bucketA5 i))
     [0, 1, 2, 3, 4, 5, 6, 7, 8] \<and>
   find_fit heapA5 128 = Some NULL \<and>
   list_all (\<lambda>i. list_all (\<lambda>b. bt_size heapA5 b < 128) (bucketA5 i))
     [0, 1, 2, 3, 4, 5, 6, 7, 8]"
proof -
  have l4: "list_all (\<lambda>i. free_list heapS4 (segregated_list heapS4 ! i) (bucketS4 i))
     [0, 1, 2, 3, 4, 5, 6, 7, 8]"
    by (simp add: heapS4_def bucketS4_def get_free_next_def NULL_def Let_def word_sless_alt)
  have l5: "list_all (\<lambda>i. free_list heapA5 (segregated_list heapA5 ! i) (bucketA5 i))
     [0, 1, 2, 3, 4, 5, 6, 7, 8]"
    by (simp add: heapA5_def bucketA5_def get_free_next_def NULL_def Let_def word_sless_alt)
  have i6: "list_all (\<lambda>i. list_all (\<lambda>b. get_index (bt_size heapA5 b) = i) (bucketA5 i))
     [0, 1, 2, 3, 4, 5, 6, 7, 8]"
    by (simp add: heapA5_def bucketA5_def bt_size_def get_index_def USED_def PREVFREE_def)
  have v: "map (bt_size heapS4) (bucketS4 2) = [64, 48, 80]" "get_index 48 = 2"
    by (simp_all add: heapS4_def bucketS4_def bt_size_def get_index_def USED_def PREVFREE_def)
  have e4: "find_fit heapS4 48 = Some 4268"
    by (simp add: heapS4_def run_defs)
  have e5: "find_fit heapA5 128 = Some NULL"
    by (simp add: heapA5_def run_defs)
  from find_fit_best_fit[of heapS4 bucketS4 48] l4
  have "\<exists>r. find_fit heapS4 48 = Some r" by (simp add: all_below_9) blast
  moreover
  from find_fit_best_fit[of heapA5 bucketA5 128] l5 i6 e5
  have "\<forall>i<NUM_LIST. \<forall>b\<in>set (bucketA5 i). bt_size heapA5 b < 128"
    by (simp add: all_below_9 list_all_iff)
  then have "list_all (\<lambda>i. list_all (\<lambda>b. bt_size heapA5 b < 128) (bucketA5 i))
     [0, 1, 2, 3, 4, 5, 6, 7, 8]"
    by (simp add: all_below_9 list_all_iff)
  ultimately show ?thesis using l4 l5 i6 v e4 e5 by simp
qed

subsection \<open>C5: the bytes copied by a moving reallocation\<close>

lemma realloc_heapB4:
  "realloc heapB4 4192 100 = Some (4288, free (memcpy heapB5 4288 4192 60) 4192)"
proof -
  have f: "mem heapB4 4188 = 33" "mem heapB4 4220 = 32" "heap_end heapB4 = 4284"
    "last_blk heapB4 = 4252"
    by (simp_all add: heapB4_def)
  show ?thesis
    by (simp add: realloc_def run_heapB5 f bt_header_def bt_next_def bt_size_def bt_free_def
        round_up_def ALIGNMENT_def WSIZE_def USED_def PREVFREE_def NULL_def Let_def)
qed

text \<open>
  Claim C5: when \<^verbatim>\<open>realloc(p, n)\<close> can neither grow the block in place nor extend at the heap
  end, it allocates a new block, copies exactly \<open>min(cur - 4, n)\<close> payload bytes (\<open>cur\<close> the
  size of the old block), frees the old block and returns the new pointer.

  The code copies \<^verbatim>\<open>free_size - WSIZE\<close> bytes, and \<^verbatim>\<open>free_size\<close> includes the size of the
  physical successor when that one is free (lemma \<open>realloc_move_length\<close>). Run:
  \<^verbatim>\<open>mm_init(); a = malloc(24); b = malloc(24); c = malloc(24); free(b); realloc(a, 100)\<close>.
  The old block \<open>a\<close> has 32 bytes, so \<open>min(cur - 4, n) = 28\<close>; its successor \<open>b\<close> is free
  (32 bytes) and \<open>c\<close> is the last block. \<^verbatim>\<open>realloc\<close> calls \<^verbatim>\<open>memcpy\<close> with the length
  \<open>32 + 32 - 4 = 60\<close>: the words at offsets 28 to 56 of the new payload (zero before) receive
  the header, the links and the footer of \<open>b\<close>.
\<close>

theorem realloc_copies_avail:
  "mm_init fresh = (0, heap0) \<and> malloc heap0 24 = Some (4192, heapA1) \<and>
   malloc heapA1 24 = Some (4224, heapA2) \<and>
   malloc heapA2 24 = Some (4256, heapB3) \<and> free heapB3 4224 = heapB4 \<and>
   bt_size heapB4 (bt_header 4192) = 32 \<and> min (32 - 4) (100 :: size_t) = 28 \<and>
   bt_free heapB4 (bt_next heapB4 (bt_header 4192)) \<and>
   bt_size heapB4 (bt_next heapB4 (bt_header 4192)) = 32 \<and>
   malloc heapB4 100 = Some (4288, heapB5) \<and>
   realloc heapB4 4192 100 = Some (4288, free (memcpy heapB5 4288 4192 60) 4192) \<and>
   mem heapB4 (4192 + 28) = 32 \<and> mem heapB5 (4288 + 28) = 0 \<and>
   mem (free (memcpy heapB5 4288 4192 60) 4192) (4288 + 28) = 32 \<and>
   mem heapB4 (4192 + 56) = 32 \<and> mem heapB5 (4288 + 56) = 0 \<and>
   mem (free (memcpy heapB5 4288 4192 60) 4192) (4288 + 56) = 32"
proof -
  have "bt_size heapB4 (bt_header 4192) = 32" "min (32 - 4) (100 :: size_t) = 28"
    "bt_free heapB4 (bt_next heapB4 (bt_header 4192))"
    "bt_size heapB4 (bt_next heapB4 (bt_header 4192)) = 32"
    "mem heapB4 (4192 + 28) = 32" "mem heapB4 (4192 + 56) = 32"
    by (simp_all add: heapB4_def run_defs)
  moreover have "mem heapB5 (4288 + 28) = 0" "mem heapB5 (4288 + 56) = 0"
    "mem (free (memcpy heapB5 4288 4192 60) 4192) (4288 + 28) = 32"
    "mem (free (memcpy heapB5 4288 4192 60) 4192) (4288 + 56) = 32"
    by (simp_all add: heapB5_def run_defs)
  ultimately show ?thesis
    using run_heap0 run_heapA1 run_heapA2 run_heapB3 run_heapB4 run_heapB5 realloc_heapB4
    by simp
qed

subsection \<open>C10: the request of the miss path\<close>

text \<open>
  Claim C10: whenever \<^verbatim>\<open>find_fit(asize)\<close> returns none for an \<open>asize\<close> that is a multiple of
  16, as every adjusted request size is, every free block is smaller than \<open>asize\<close>; hence in
  the miss path of \<^verbatim>\<open>malloc\<close>, when \<open>last\<close> is free, \<open>asize - size(last)\<close> does not
  underflow and the provider is asked for a positive amount.

  For the adjusted sizes from 16 on this holds on every heap whose blocks are on the lists of
  their classes (lemma \<open>miss_no_underflow\<close>). But \<^verbatim>\<open>malloc\<close> computes
  \<^verbatim>\<open>round_up(size + WSIZE)\<close> in \<^verbatim>\<open>size_t\<close> without a check, and for a request of
  \<open>2^64 - 4\<close> bytes (any request from \<open>2^64 - 19\<close> to \<open>2^64 - 4\<close>) the adjusted size wraps
  to 0. The search
  for 0 bytes starts at bucket 2 and never looks at the blocks of 16 and 32 bytes. Run:
  \<^verbatim>\<open>mm_init(); p = malloc(1); free(p); malloc(SIZE_MAX - 3)\<close>. The only block (16 bytes at
  4188) is free and is the last one; the search misses, \<open>0 - 16\<close> underflows, and the provider is
  asked for \<open>2^64 - 16\<close> bytes (which it refuses).
\<close>

theorem malloc_miss_underflow:
  "mm_init fresh = (0, heap0) \<and>
   malloc heap0 1 = Some (4192, heapC1) \<and> free heapC1 4192 = heapC2 \<and>
   round_up (18446744073709551612 + WSIZE) = 0 \<and> find_fit heapC2 0 = Some NULL \<and>
   last_blk heapC2 = 4188 \<and> bt_free heapC2 4188 \<and> bt_size heapC2 4188 = 16 \<and>
   \<not> bt_size heapC2 4188 < 0 \<and>
   (0 :: size_t) - bt_size heapC2 4188 = 18446744073709551600 \<and>
   mem_sbrk heapC2 18446744073709551600 = None \<and>
   malloc heapC2 18446744073709551612 = Some (NULL, heapC2)"
proof -
  have "round_up (18446744073709551612 + WSIZE) = 0" "find_fit heapC2 0 = Some NULL"
    "last_blk heapC2 = 4188" "bt_free heapC2 4188" "bt_size heapC2 4188 = 16"
    "\<not> bt_size heapC2 4188 < 0" "(0 :: size_t) - bt_size heapC2 4188 = 18446744073709551600"
    "mem_sbrk heapC2 18446744073709551600 = None"
    by (simp_all add: heapC2_def run_defs)
  moreover have "malloc heapC2 18446744073709551612 = Some (NULL, heapC2)"
    by (simp add: heapC2_def run_defs)
  ultimately show ?thesis
    using run_heap0 run_heapC1 run_heapC2 by simp
qed

subsection \<open>C1: alignment of the returned pointers\<close>

text \<open>
  Claim C1: every successful \<^verbatim>\<open>malloc\<close> (and \<^verbatim>\<open>realloc\<close>, \<^verbatim>\<open>calloc\<close> returning a fresh
  block) after a successful \<^verbatim>\<open>mm_init\<close> returns a payload pointer that is 0 modulo 16.

  One call of \<^verbatim>\<open>malloc\<close> on a heap whose blocks sit at 12 modulo 16 does return an
  aligned pointer (lemmas \<open>mm_init_aligned\<close>, \<open>malloc_aligned\<close>), but the heap does not
  stay so: the same unchecked \<^verbatim>\<open>round_up(size + WSIZE)\<close> hands the caller a block that is
  still on a free list. Run, from a provider whose base 4096 is 16-byte aligned:
  \<^verbatim>\<open>mm_init(); p = malloc(100); free(p); q = malloc(SIZE_MAX - 3);\<close>
  the caller stores four words into \<open>q\<close>; \<^verbatim>\<open>r = malloc(50)\<close>.
  The adjusted size of the second request is 0; \<^verbatim>\<open>find_fit(0)\<close> returns the free 112-byte
  block, \<^verbatim>\<open>place\<close> splits off an allocated part of 0 bytes and puts the rest, the whole
  block, back on its list, and \<^verbatim>\<open>malloc\<close> returns its payload \<open>q = p = 4192\<close> with the heap
  exactly as before: the caller holds a pointer into a block that is still on the free list.
  Its stores (the words at \<open>q\<close>, \<open>q + 8\<close>, \<open>q + 12\<close>, \<open>q + 16\<close>) overwrite the next link of that
  block and lay out a 64-byte list entry at \<open>q + 8\<close>. \<^verbatim>\<open>malloc(50)\<close> follows the link, takes
  that entry as the best fit and returns \<open>r = 4204\<close>, which is 12 modulo 16.
\<close>

theorem malloc_overflow_misaligned:
  "mm_init fresh = (0, heap0) \<and> unat (mem_brk fresh) mod 16 = 0 \<and>
   malloc heap0 100 = Some (4192, heapD1) \<and> free heapD1 4192 = heapD2 \<and>
   round_up (18446744073709551612 + WSIZE) = 0 \<and>
   malloc heapD2 18446744073709551612 = Some (4192, heapD2) \<and>
   bt_free heapD2 (bt_header 4192) \<and> segregated_list heapD2 ! 3 = bt_header 4192 \<and>
   user_store (user_store (user_store (user_store heapD2 4192 3) (4192 + 8) 64)
     (4192 + 12) (- 1)) (4192 + 16) 0 = heapD3 \<and>
   malloc heapD3 50 = Some (4204, heapD4) \<and> unat (4204 :: ptr) mod 16 = 12"
proof -
  have "unat (mem_brk fresh) mod 16 = 0" by (simp add: fresh_def)
  moreover have "round_up (18446744073709551612 + WSIZE) = 0"
    "malloc heapD2 18446744073709551612 = Some (4192, heapD2)"
    "bt_free heapD2 (bt_header 4192)" "segregated_list heapD2 ! 3 = bt_header 4192"
    by (simp_all add: heapD2_def run_defs)
  ultimately show ?thesis
    using run_heap0 run_heapD1 run_heapD2 run_heapD3 run_heapD4 by simp
qed

end
